theory Spec2Isabelle
  imports Main
begin

section \<open>The browser-side peer of aiodesktop (\<^verbatim>\<open>bootstrap.js\<close>)\<close>

text \<open>
  The repository holds two revisions of the browser bootstrap script: one that wraps
  the WebSocket in a \<^verbatim>\<open>Channel\<close> class (\<^verbatim>\<open>src/aiodesktop/static/bootstrap.js\<close>) and
  one that attaches the handlers to the socket directly (\<^verbatim>\<open>unnamed/part_000\<close>). The
  methods \<^verbatim>\<open>expose\<close>, \<^verbatim>\<open>execute\<close>, \<^verbatim>\<open>_addReturn\<close>, \<^verbatim>\<open>_popReturn\<close>, \<^verbatim>\<open>_on_call\<close>,
  \<^verbatim>\<open>_on_error\<close>, \<^verbatim>\<open>_on_return\<close>, \<^verbatim>\<open>_send_call\<close> and \<^verbatim>\<open>_send_return\<close> are the same text
  in both; the message entry point and the close handlers differ and are modelled
  once per revision.

  Modelling conventions.
  \<^item> A method of \<^verbatim>\<open>Server\<close> is a function from the server state to a completion and
    the new state. The completion is \<open>Inr\<close> for a normal return and \<open>Inl\<close> for an
    exception; for an \<^verbatim>\<open>async\<close> method \<open>Inl\<close> is the rejection of the promise it
    returns. The state is returned in both cases, since what a method has mutated
    before it throws stays mutated.
  \<^item> Everything the script does to its environment (console output, socket, window,
    settling a promise) is appended to the field \<open>effects\<close>, in program order. The
    push onto \<^verbatim>\<open>_pendingReturns\<close> is recorded there as well, so that its order relative
    to the socket write can be read off the trace.
  \<^item> Payload values are JSON data. An object is the table of its own properties, in
    the order in which JavaScript enumerates them, and its prototype is
    \<^verbatim>\<open>Object.prototype\<close>; what the script reaches through the prototype (the string
    conversion of a value, \<^verbatim>\<open>hasOwnProperty\<close>, a lookup that finds no own property)
    is modelled where it is used.
  \<^item> A number payload is represented by the text that \<^verbatim>\<open>Number.prototype.toString\<close>
    gives for it (\<^verbatim>\<open>1\<close>, \<^verbatim>\<open>-2.5\<close>, \<^verbatim>\<open>1e+21\<close>): the script only prints such numbers and
    tests them for truth, it never computes with them.
  \<^item> A registered function is its \<^verbatim>\<open>name\<close> property, whether it is an \<^verbatim>\<open>async\<close>
    function, and its behaviour on an argument list: the value it returns (or its
    promise fulfils with), or the exception it throws (or its promise rejects with).
    Handlers do not touch the server. A function object has no own properties
    besides the ones every function has.
  \<^item> The result of a method is an \<open>option\<close> where the script can reach code of the
    JavaScript runtime that this theory does not describe (some built-in methods of
    \<^verbatim>\<open>Object.prototype\<close> called as a handler, a registry whose prototype has been
    replaced): \<open>None\<close> says that the theory makes no statement about that call.
  \<^item> The socket accepts every \<^verbatim>\<open>send\<close>.
  \<^item> The proxy \<^verbatim>\<open>py\<close> (a call \<^verbatim>\<open>server.py.f(a, b)\<close> is \<^verbatim>\<open>execute('f', [a, b])\<close>) and the
    \<^verbatim>\<open>onbeforeunload\<close> hook are left out.
\<close>

subsection \<open>Values\<close>

datatype jsval =
    JUndefined
  | JNull
  | JBool bool
  | JNum string
  | JStr string
  | JArr "jsval list"
  | JObj "(string \<times> jsval) list"

text \<open>What a \<^verbatim>\<open>throw\<close> carries: a built-in error object, or any value (the script
  itself throws strings).\<close>

datatype thrown = TypeError | SyntaxError | Thrown jsval

text \<open>\<^verbatim>\<open>Number.prototype.toString(10)\<close> on a non-negative integer below \<open>10\<^sup>2\<^sup>1\<close> (the
  call counter, which stays below \<open>2\<^sup>5\<^sup>3\<close>).\<close>

fun toString10 :: "nat \<Rightarrow> string" where
  "toString10 n =
     (if n < 10 then [''0123456789'' ! n]
      else toString10 (n div 10) @ [''0123456789'' ! (n mod 10)])"

declare toString10.simps [simp del]

text \<open>
  The string conversion of a substitution \<^verbatim>\<open>${v}\<close> in a template literal, and
  \<^verbatim>\<open>Array.prototype.join\<close> (which renders \<^verbatim>\<open>undefined\<close> and \<^verbatim>\<open>null\<close> elements as the
  empty string and converts every other element).

  An object is converted by calling its \<^verbatim>\<open>toString\<close> and then its \<^verbatim>\<open>valueOf\<close>. For JSON
  data an own property \<^verbatim>\<open>toString\<close> is never a function, and \<^verbatim>\<open>valueOf\<close> (own and not a
  function, or inherited and returning the object) yields no primitive: the
  conversion of an object with an own key \<^verbatim>\<open>toString\<close> is a TypeError. Without that
  key the inherited \<^verbatim>\<open>Object.prototype.toString\<close> answers \<^verbatim>\<open>[object Object]\<close>. An array is
  converted by \<^verbatim>\<open>join(',')\<close>.
\<close>

fun ToString :: "jsval \<Rightarrow> thrown + string"
  and element :: "jsval \<Rightarrow> thrown + string"
  and join :: "string \<Rightarrow> jsval list \<Rightarrow> thrown + string" where
  "ToString JUndefined = Inr ''undefined''"
| "ToString JNull = Inr ''null''"
| "ToString (JBool b) = Inr (if b then ''true'' else ''false'')"
| "ToString (JNum t) = Inr t"
| "ToString (JStr s) = Inr s"
| "ToString (JArr xs) = join '','' xs"
| "ToString (JObj kvs) =
     (if ''toString'' \<in> set (map fst kvs) then Inl TypeError else Inr ''[object Object]'')"
| "element x = (if x = JUndefined \<or> x = JNull then Inr '''' else ToString x)"
| "join sep [] = Inr ''''"
| "join sep [x] = element x"
| "join sep (x # y # ys) =
     (case element x of
        Inl e \<Rightarrow> Inl e
      | Inr t \<Rightarrow> (case join sep (y # ys) of Inl e \<Rightarrow> Inl e | Inr ts \<Rightarrow> Inr (t @ sep @ ts)))"

text \<open>A template literal: the pieces are converted from left to right, and the first
  conversion that throws ends the evaluation.\<close>

fun template :: "(thrown + string) list \<Rightarrow> thrown + string" where
  "template [] = Inr ''''"
| "template (Inl e # ps) = Inl e"
| "template (Inr t # ps) = (case template ps of Inl e \<Rightarrow> Inl e | Inr ts \<Rightarrow> Inr (t @ ts))"

declare template.simps [simp del]

text \<open>The truth value of a condition (\<^verbatim>\<open>ToBoolean\<close>).\<close>

fun truthy :: "jsval \<Rightarrow> bool" where
  "truthy JUndefined = False"
| "truthy JNull = False"
| "truthy (JBool b) = b"
| "truthy (JNum t) = (t \<noteq> ''0'' \<and> t \<noteq> ''NaN'')"
| "truthy (JStr s) = (s \<noteq> [])"
| "truthy (JArr xs) = True"
| "truthy (JObj kvs) = True"

text \<open>Property read \<^verbatim>\<open>v.k\<close>, for the keys the dispatcher reads (\<^verbatim>\<open>type\<close>, \<^verbatim>\<open>id\<close>,
  \<^verbatim>\<open>name\<close>, \<^verbatim>\<open>args\<close>, \<^verbatim>\<open>ret\<close>, \<^verbatim>\<open>error\<close>): reading a property of \<^verbatim>\<open>null\<close> or \<^verbatim>\<open>undefined\<close>
  is a TypeError; primitives and arrays have none of these properties.\<close>

definition get_prop :: "jsval \<Rightarrow> string \<Rightarrow> thrown + jsval" where
  "get_prop v k =
     (case v of
        JObj kvs \<Rightarrow> Inr (case map_of kvs k of Some x \<Rightarrow> x | None \<Rightarrow> JUndefined)
      | JNull \<Rightarrow> Inl TypeError
      | JUndefined \<Rightarrow> Inl TypeError
      | _ \<Rightarrow> Inr JUndefined)"

definition field :: "jsval \<Rightarrow> string \<Rightarrow> jsval" where
  "field v k = (case get_prop v k of Inr x \<Rightarrow> x | Inl _ \<Rightarrow> JUndefined)"

subsection \<open>Dictionaries in property order\<close>

text \<open>An ordinary object enumerates its array-index keys first, ascending (canonical
  decimal numerals below \<open>2\<^sup>3\<^sup>2 - 1\<close>), then its other keys in creation order. The
  table is kept in that order, so \<^verbatim>\<open>Object.keys\<close> is \<open>map fst\<close>.\<close>

definition digit_value :: "char \<Rightarrow> nat" where
  "digit_value c = of_char c - 48"

definition array_index :: "string \<Rightarrow> nat option" where
  "array_index k =
     (let n = foldl (\<lambda>a c. 10 * a + digit_value c) 0 k in
      if k \<noteq> [] \<and> list_all (\<lambda>c. c \<in> set ''0123456789'') k
         \<and> (k = ''0'' \<or> hd k \<noteq> CHR ''0'') \<and> n < 4294967295
      then Some n else None)"

fun insert_index :: "nat \<Rightarrow> string \<Rightarrow> 'v \<Rightarrow> (string \<times> 'v) list \<Rightarrow> (string \<times> 'v) list" where
  "insert_index n k v [] = [(k, v)]"
| "insert_index n k v ((k', v') # rest) =
     (case array_index k' of
        Some m \<Rightarrow>
          if m < n then (k', v') # insert_index n k v rest else (k, v) # (k', v') # rest
      | None \<Rightarrow> (k, v) # (k', v') # rest)"

text \<open>The built-in \<^verbatim>\<open>Object.prototype.hasOwnProperty\<close> and the assignment \<^verbatim>\<open>obj[k] = v\<close>
  for a key that the assignment stores as an own property.\<close>

definition hasOwnProperty :: "(string \<times> 'v) list \<Rightarrow> string \<Rightarrow> bool" where
  "hasOwnProperty obj k = (k \<in> set (map fst obj))"

definition set_property :: "(string \<times> 'v) list \<Rightarrow> string \<Rightarrow> 'v \<Rightarrow> (string \<times> 'v) list" where
  "set_property obj k v =
     (if hasOwnProperty obj k then map (\<lambda>(k', v'). if k' = k then (k', v) else (k', v')) obj
      else case array_index k of
             Some n \<Rightarrow> insert_index n k v obj
           | None \<Rightarrow> obj @ [(k, v)])"

text \<open>The property names of \<^verbatim>\<open>Object.prototype\<close> (ECMAScript, with its annex B). All are
  methods, except \<^verbatim>\<open>__proto__\<close>, an accessor whose setter replaces the prototype of
  the object assigned to.\<close>

definition Object_prototype :: "string list" where
  "Object_prototype =
     [''constructor'', ''__defineGetter__'', ''__defineSetter__'', ''hasOwnProperty'',
      ''__lookupGetter__'', ''__lookupSetter__'', ''isPrototypeOf'',
      ''propertyIsEnumerable'', ''toString'', ''valueOf'', ''__proto__'',
      ''toLocaleString'']"

subsection \<open>The server object\<close>

text \<open>A function that can be exposed. The field \<open>async\<close> says that a call returns a
  promise, as a call of an \<^verbatim>\<open>async\<close> function does; \<open>body\<close> is then how that promise
  settles, and a call that is not awaited gets the promise.\<close>

record jsfun =
  fname :: string
  async :: bool
  body :: "jsval list \<Rightarrow> thrown + jsval"

text \<open>The argument of \<^verbatim>\<open>expose\<close>: a function, or an object from names to functions,
  given by its \<^verbatim>\<open>Object.entries\<close>.\<close>

datatype exposable = Fn jsfun | Mapping "(string \<times> jsfun) list"

text \<open>A function expression without a name: its \<^verbatim>\<open>name\<close> property is the empty
  string.\<close>

definition anonymous_function :: "(jsval list \<Rightarrow> thrown + jsval) \<Rightarrow> jsfun" where
  "anonymous_function b = \<lparr>fname = [], async = False, body = b\<rparr>"

text \<open>An entry \<^verbatim>\<open>{id, resolve, reject}\<close> of \<^verbatim>\<open>_pendingReturns\<close>. The two continuations
  are the resolving functions of the promise made in \<^verbatim>\<open>execute\<close>; each is represented
  by the handle of the promise it settles.\<close>

record pending =
  pending_id :: string
  resolve :: nat
  reject :: nat

datatype effect =
    ConsoleDebug string
  | ConsoleError
  | InitFunction
  | PendingPush string
  | WsSend jsval
  | WindowClose
  | Resolve nat jsval
  | Reject nat jsval

text \<open>The fields of \<^verbatim>\<open>Server\<close> (\<open>ws_opened_on\<close> exists in \<^verbatim>\<open>part_000\<close> only), the
  number of promises \<^verbatim>\<open>execute\<close> has made so far, and the trace.\<close>

record server =
  idCounter :: nat
  pendingReturns :: "pending list"
  fns :: "(string \<times> jsfun) list"
  ws_opened_on :: "int option"
  promises :: nat
  effects :: "effect list"

type_synonym 'a completion = "(thrown + 'a) \<times> server"

definition new_Server :: server where
  "new_Server =
     \<lparr>idCounter = 0, pendingReturns = [], fns = [], ws_opened_on = None,
      promises = 0, effects = []\<rparr>"

definition perform :: "effect \<Rightarrow> server \<Rightarrow> server" where
  "perform e s = s\<lparr>effects := effects s @ [e]\<rparr>"

definition console_debug :: "string \<Rightarrow> server \<Rightarrow> server" where
  "console_debug m s = perform (ConsoleDebug m) s"

text \<open>The trace entries that settle a promise.\<close>

fun is_settlement :: "effect \<Rightarrow> bool" where
  "is_settlement (Resolve p v) = True"
| "is_settlement (Reject p v) = True"
| "is_settlement _ = False"

subsection \<open>\<^verbatim>\<open>expose\<close>\<close>

text \<open>
  The test \<^verbatim>\<open>this._fns.hasOwnProperty(name)\<close> is a method call on the registry object:
  the method is looked up in the registry first. While the registry has no own
  property \<^verbatim>\<open>hasOwnProperty\<close> the built-in is found; once a function has been exposed
  under that name, that function is called with the name, and the truth value of
  what it returns decides the test (a promise, which an \<^verbatim>\<open>async\<close> function returns,
  counts as true; an exception leaves \<^verbatim>\<open>expose\<close>).
\<close>

definition fns_hasOwnProperty :: "(string \<times> jsfun) list \<Rightarrow> string \<Rightarrow> thrown + bool" where
  "fns_hasOwnProperty registry name =
     (case map_of registry ''hasOwnProperty'' of
        None \<Rightarrow> Inr (hasOwnProperty registry name)
      | Some h \<Rightarrow>
          if async h then Inr True
          else (case body h [JStr name] of Inl e \<Rightarrow> Inl e | Inr v \<Rightarrow> Inr (truthy v)))"

text \<open>
  \<^verbatim>\<open>
  Object.entries(mapping).forEach(([name, fn]) => {
      if (this._fns.hasOwnProperty(name))
          throw `function '${name}' is already registered`;
      else
          this._fns[name] = fn;
  });
  \<close>
  The assignment stores an own property, except for the name \<^verbatim>\<open>__proto__\<close>: there it
  runs the setter inherited from \<^verbatim>\<open>Object.prototype\<close>, which makes the function the
  prototype of the registry and stores nothing. What the registry then inherits
  from the function object is not described here (\<open>None\<close>).
\<close>

definition already_registered :: "string \<Rightarrow> thrown" where
  "already_registered name =
     Thrown (JStr (''function '' @ [CHR 0x27] @ name @ [CHR 0x27] @ '' is already registered''))"

fun expose_forEach :: "(string \<times> jsfun) list \<Rightarrow> server \<Rightarrow> unit completion option" where
  "expose_forEach [] s = Some (Inr (), s)"
| "expose_forEach ((name, f) # rest) s =
     (case fns_hasOwnProperty (fns s) name of
        Inl e \<Rightarrow> Some (Inl e, s)
      | Inr taken \<Rightarrow>
          if taken then Some (Inl (already_registered name), s)
          else if name = ''__proto__'' then None
          else expose_forEach rest (s\<lparr>fns := set_property (fns s) name f\<rparr>))"

text \<open>
  \<^verbatim>\<open>
  if (typeof (fnOrFns) === 'function') {
      mapping = {};
      mapping[fnOrFns.name] = fnOrFns;
  } else {
      mapping = fnOrFns;
  }
  \<close>
  For a function named \<^verbatim>\<open>__proto__\<close> the assignment to the fresh object replaces the
  prototype of that object and stores no own property: \<^verbatim>\<open>Object.entries(mapping)\<close> is
  empty.
\<close>

definition expose :: "exposable \<Rightarrow> server \<Rightarrow> unit completion option" where
  "expose fnOrFns s =
     (let mapping =
            (case fnOrFns of
               Fn f \<Rightarrow> if fname f = ''__proto__'' then [] else [(fname f, f)]
             | Mapping m \<Rightarrow> m)
      in expose_forEach mapping s)"

subsection \<open>The pending call table\<close>

definition addReturn :: "string \<Rightarrow> nat \<Rightarrow> nat \<Rightarrow> server \<Rightarrow> server" where
  "addReturn i res rej s =
     perform (PendingPush i)
       (s\<lparr>pendingReturns :=
            pendingReturns s @ [\<lparr>pending_id = i, resolve = res, reject = rej\<rparr>]\<rparr>)"

text \<open>\<^verbatim>\<open>Array.prototype.findIndex\<close>, with \<open>None\<close> for \<^verbatim>\<open>-1\<close>.\<close>

fun findIndex :: "('a \<Rightarrow> bool) \<Rightarrow> 'a list \<Rightarrow> nat option" where
  "findIndex P [] = None"
| "findIndex P (x # xs) = (if P x then Some 0 else map_option Suc (findIndex P xs))"

text \<open>\<^verbatim>\<open>xs.splice(i, 1)\<close>, the array that is left.\<close>

definition splice1 :: "nat \<Rightarrow> 'a list \<Rightarrow> 'a list" where
  "splice1 i xs = take i xs @ drop (Suc i) xs"

definition no_handler :: "string \<Rightarrow> thrown" where
  "no_handler i = Thrown (JStr (''no handler for call #'' @ i))"

text \<open>
  \<^verbatim>\<open>
  let returnI = this._pendingReturns.findIndex(x => x.id === id);
  if (returnI === -1) {
      throw `no handler for call #${id}`;
  } else {
      let {resolve, reject} = this._pendingReturns[returnI];
      this._pendingReturns.splice(returnI, 1);
      return [resolve, reject];
  }
  \<close>
  The comparison \<^verbatim>\<open>x.id === id\<close> is strict: the stored id is a string, so it holds
  only for a string \<^verbatim>\<open>id\<close> with the same characters.
\<close>

definition popReturn :: "jsval \<Rightarrow> server \<Rightarrow> (nat \<times> nat) completion" where
  "popReturn i s =
     (case findIndex (\<lambda>x. JStr (pending_id x) = i) (pendingReturns s) of
        None \<Rightarrow>
          (case ToString i of
             Inl e \<Rightarrow> (Inl e, s)
           | Inr t \<Rightarrow> (Inl (no_handler t), s))
      | Some returnI \<Rightarrow>
          (Inr (resolve (pendingReturns s ! returnI), reject (pendingReturns s ! returnI)),
           s\<lparr>pendingReturns := splice1 returnI (pendingReturns s)\<rparr>))"

subsection \<open>Sending\<close>

text \<open>\<^verbatim>\<open>chan.send(data)\<close> / \<^verbatim>\<open>_send(data)\<close>: \<^verbatim>\<open>ws.send(JSON.stringify(data))\<close>. The trace
  keeps the object that is serialised.\<close>

definition send :: "jsval \<Rightarrow> server \<Rightarrow> server" where
  "send data s = perform (WsSend data) s"

definition call_envelope :: "string \<Rightarrow> string \<Rightarrow> jsval list \<Rightarrow> jsval" where
  "call_envelope i name args =
     JObj [(''type'', JStr ''call''), (''id'', JStr i), (''name'', JStr name),
           (''args'', JArr args)]"

text \<open>
  \<^verbatim>\<open>
  console.debug(`sending call #${id}: ${name}(${args.join(', ')})`);
  await this.chan.send({type: 'call', id, name, args});
  \<close>
  When an argument has no string conversion the first line throws, and nothing is
  logged or sent.
\<close>

definition send_call :: "string \<Rightarrow> string \<Rightarrow> jsval list \<Rightarrow> server \<Rightarrow> unit completion" where
  "send_call i name args s =
     (case template [Inr ''sending call #'', Inr i, Inr '': '', Inr name, Inr ''('',
                     join '', '' args, Inr '')''] of
        Inl e \<Rightarrow> (Inl e, s)
      | Inr line \<Rightarrow> (Inr (), send (call_envelope i name args) (console_debug line s)))"

definition return_envelope :: "jsval \<Rightarrow> jsval \<Rightarrow> jsval" where
  "return_envelope i ret = JObj [(''type'', JStr ''return''), (''id'', i), (''ret'', ret)]"

text \<open>
  \<^verbatim>\<open>
  ret = (ret === undefined) ? null : ret;
  console.debug(`sending return for #${id}: ${name}(${args.join(', ')}) -> ${ret}`);
  await this.chan.send({type: 'return', id, ret});
  \<close>
\<close>

definition send_return :: "jsval \<Rightarrow> jsval \<Rightarrow> jsval list \<Rightarrow> jsval \<Rightarrow> server \<Rightarrow> unit completion" where
  "send_return i name args ret0 s =
     (let ret = (if ret0 = JUndefined then JNull else ret0) in
      case template [Inr ''sending return for #'', ToString i, Inr '': '', ToString name,
                     Inr ''('', join '', '' args, Inr '') -> '', ToString ret] of
        Inl e \<Rightarrow> (Inl e, s)
      | Inr line \<Rightarrow> (Inr (), send (return_envelope i ret) (console_debug line s)))"

subsection \<open>\<^verbatim>\<open>execute\<close>\<close>

text \<open>\<^verbatim>\<open>this._idCounter += 1\<close> on a JavaScript number: exact up to \<open>2\<^sup>5\<^sup>3\<close>, where the
  sum rounds back to \<open>2\<^sup>5\<^sup>3\<close>.\<close>

definition add1 :: "nat \<Rightarrow> nat" where
  "add1 n = (if n < 2 ^ 53 then n + 1 else n)"

text \<open>
  \<^verbatim>\<open>
  this._idCounter += 1;
  let callId = this._idCounter.toString(10);
  let result = new Promise((resolve, reject) => {
      this._addReturn(callId, resolve, reject)
  });
  await this._send_call(callId, name, args);
  return result;
  \<close>
  The executor of \<^verbatim>\<open>new Promise\<close> runs at once, inside the constructor call. The
  result is the handle of the promise.
\<close>

definition execute :: "string \<Rightarrow> jsval list \<Rightarrow> server \<Rightarrow> nat completion" where
  "execute name args s =
     (let s1 = s\<lparr>idCounter := add1 (idCounter s)\<rparr>;
          callId = toString10 (idCounter s1);
          result = promises s1;
          s2 = addReturn callId result result (s1\<lparr>promises := Suc result\<rparr>)
      in case send_call callId name args s2 of
           (Inl e, s3) \<Rightarrow> (Inl e, s3)
         | (Inr _, s3) \<Rightarrow> (Inr result, s3))"

subsection \<open>Inbound envelopes\<close>

definition not_found :: "string \<Rightarrow> string \<Rightarrow> thrown" where
  "not_found name keys =
     Thrown (JStr (''function '' @ [CHR 0x27] @ name @ [CHR 0x27]
       @ '' is not found, registered functions: ['' @ keys @ '']''))"

text \<open>The read \<^verbatim>\<open>this._fns[name]\<close>: an own property of the registry, or else a member
  that the registry inherits from \<^verbatim>\<open>Object.prototype\<close>, or else \<^verbatim>\<open>undefined\<close>.\<close>

datatype lookup = Own jsfun | Inherited | Undefined

definition fns_get :: "(string \<times> jsfun) list \<Rightarrow> string \<Rightarrow> lookup" where
  "fns_get registry key =
     (case map_of registry key of
        Some f \<Rightarrow> Own f
      | None \<Rightarrow> if key \<in> set Object_prototype then Inherited else Undefined)"

text \<open>
  What \<^verbatim>\<open>fn.apply(this, args)\<close> yields when \<^verbatim>\<open>fn\<close> is the inherited member \<open>key\<close>, \<^verbatim>\<open>this\<close> is
  the server object and the arguments are JSON data:
  \<^item> \<^verbatim>\<open>toString\<close> answers \<^verbatim>\<open>[object Object]\<close>, and \<^verbatim>\<open>toLocaleString\<close> calls \<^verbatim>\<open>toString\<close>;
  \<^item> \<^verbatim>\<open>isPrototypeOf\<close> answers \<^verbatim>\<open>false\<close>, the server being in the prototype chain of no
    JSON value;
  \<^item> \<^verbatim>\<open>__defineGetter__\<close> and \<^verbatim>\<open>__defineSetter__\<close> throw a TypeError, their second argument
    not being a function;
  \<^item> \<^verbatim>\<open>__proto__\<close> reads as the object \<^verbatim>\<open>Object.prototype\<close>, which has no \<^verbatim>\<open>apply\<close>: a
    TypeError.
  The other members (\<^verbatim>\<open>valueOf\<close> and \<^verbatim>\<open>constructor\<close>, which return objects that are no
  JSON data; \<^verbatim>\<open>hasOwnProperty\<close>, \<^verbatim>\<open>propertyIsEnumerable\<close>, \<^verbatim>\<open>__lookupGetter__\<close> and
  \<^verbatim>\<open>__lookupSetter__\<close>, which inspect the properties of the server object) are not
  described here (\<open>None\<close>).
\<close>

definition Object_prototype_apply :: "string \<Rightarrow> jsval list \<Rightarrow> (thrown + jsval) option" where
  "Object_prototype_apply key args =
     (if key = ''toString'' \<or> key = ''toLocaleString'' then Some (Inr (JStr ''[object Object]''))
      else if key = ''isPrototypeOf'' then Some (Inr (JBool False))
      else if key = ''__defineGetter__'' \<or> key = ''__defineSetter__'' \<or> key = ''__proto__''
      then Some (Inl TypeError)
      else None)"

text \<open>
  \<^verbatim>\<open>
  console.debug(`received call #${id}: ${name}(${args.join(', ')})`);
  let fn = this._fns[name];
  if (fn === undefined) {
      let fns = Object.keys(this._fns);
      throw `function '${name}' is not found, registered functions: [${fns}]`;
  } else {
      let ret = await fn.apply(this, args);
      await this._send_return(id, name, args, ret);
  }
  \<close>
  Only an array has a \<^verbatim>\<open>join\<close> method: for any other \<^verbatim>\<open>args\<close> the first line is a
  TypeError, as it is when \<^verbatim>\<open>id\<close>, \<^verbatim>\<open>name\<close> or an argument has no string conversion.
  The property key of \<^verbatim>\<open>this._fns[name]\<close> is the string conversion of \<^verbatim>\<open>name\<close>. When the
  read finds an inherited member, \<^verbatim>\<open>fn\<close> is not \<^verbatim>\<open>undefined\<close> and the script goes on to
  apply that member.
\<close>

definition on_call :: "jsval \<Rightarrow> jsval \<Rightarrow> jsval \<Rightarrow> server \<Rightarrow> unit completion option" where
  "on_call i name args s =
     (case args of
        JArr xs \<Rightarrow>
          (case template [Inr ''received call #'', ToString i, Inr '': '', ToString name,
                          Inr ''('', join '', '' xs, Inr '')''] of
             Inl e \<Rightarrow> Some (Inl e, s)
           | Inr line \<Rightarrow>
               (let s1 = console_debug line s;
                    key = (case ToString name of Inr k \<Rightarrow> k | Inl _ \<Rightarrow> [])
                in case fns_get (fns s1) key of
                     Undefined \<Rightarrow>
                       (case join '','' (map JStr (map fst (fns s1))) of
                          Inl e \<Rightarrow> Some (Inl e, s1)
                        | Inr keys \<Rightarrow> Some (Inl (not_found key keys), s1))
                   | Inherited \<Rightarrow>
                       (case Object_prototype_apply key xs of
                          None \<Rightarrow> None
                        | Some (Inl e) \<Rightarrow> Some (Inl e, s1)
                        | Some (Inr ret) \<Rightarrow> Some (send_return i name xs ret s1))
                   | Own f \<Rightarrow>
                       (case body f xs of
                          Inl e \<Rightarrow> Some (Inl e, s1)
                        | Inr ret \<Rightarrow> Some (send_return i name xs ret s1))))
      | _ \<Rightarrow> Some (Inl TypeError, s))"

text \<open>
  \<^verbatim>\<open>
  console.debug(`received return error #${id}: ${error}`);
  let [_, reject] = this._popReturn(id);
  reject(error);
  \<close>
\<close>

definition on_error :: "jsval \<Rightarrow> jsval \<Rightarrow> server \<Rightarrow> unit completion" where
  "on_error i error s =
     (case template [Inr ''received return error #'', ToString i, Inr '': '', ToString error] of
        Inl e \<Rightarrow> (Inl e, s)
      | Inr line \<Rightarrow>
          (case popReturn i (console_debug line s) of
             (Inl e, s1) \<Rightarrow> (Inl e, s1)
           | (Inr (_, rej), s1) \<Rightarrow> (Inr (), perform (Reject rej error) s1)))"

text \<open>
  \<^verbatim>\<open>
  console.debug(`received return for #${id} -> ${ret}`);
  let [resolve, _] = this._popReturn(id);
  resolve(ret);
  \<close>
\<close>

definition on_return :: "jsval \<Rightarrow> jsval \<Rightarrow> server \<Rightarrow> unit completion" where
  "on_return i ret s =
     (case template [Inr ''received return for #'', ToString i, Inr '' -> '', ToString ret] of
        Inl e \<Rightarrow> (Inl e, s)
      | Inr line \<Rightarrow>
          (case popReturn i (console_debug line s) of
             (Inl e, s1) \<Rightarrow> (Inl e, s1)
           | (Inr (res, _), s1) \<Rightarrow> (Inr (), perform (Resolve res ret) s1)))"

text \<open>\<^verbatim>\<open>_on_close\<close> (\<^verbatim>\<open>bootstrap.js\<close>) and \<^verbatim>\<open>_on_normal_close\<close> (\<^verbatim>\<open>part_000\<close>, which also
  stores \<^verbatim>\<open>null\<close> in a property \<^verbatim>\<open>onClose\<close> of the socket that nothing reads).\<close>

definition on_close :: "server \<Rightarrow> unit completion" where
  "on_close s = (Inr (), perform WindowClose (console_debug ''received close message'' s))"

definition on_normal_close :: "server \<Rightarrow> unit completion" where
  "on_normal_close s =
     (Inr (), perform WindowClose (console_debug ''received close message'' s))"

subsection \<open>The message entry points\<close>

text \<open>
  \<^verbatim>\<open>bootstrap.js\<close>, the handler the server gives the channel:
  \<^verbatim>\<open>
  this.chan.onMessage = async msg => {
      if (msg.type === 'return') {
          await this._on_return(msg.id, msg.ret)
      } else if (msg.type === 'call') {
          await this._on_call(msg.id, msg.name, msg.args);
      } else if (msg.type === 'error') {
          await this._on_error(msg.id, msg.error);
      } else if (msg.type === 'close') {
          await this._on_close();
      }
  };
  \<close>
\<close>

definition chan_onMessage :: "jsval \<Rightarrow> server \<Rightarrow> unit completion option" where
  "chan_onMessage msg s =
     (case get_prop msg ''type'' of
        Inl e \<Rightarrow> Some (Inl e, s)
      | Inr t \<Rightarrow>
          if t = JStr ''return'' then Some (on_return (field msg ''id'') (field msg ''ret'') s)
          else if t = JStr ''call'' then
            on_call (field msg ''id'') (field msg ''name'') (field msg ''args'') s
          else if t = JStr ''error'' then
            Some (on_error (field msg ''id'') (field msg ''error'') s)
          else if t = JStr ''close'' then Some (on_close s)
          else Some (Inr (), s))"

text \<open>
  \<^verbatim>\<open>bootstrap.js\<close>, the channel's socket handler:
  \<^verbatim>\<open>
  this.ws.onmessage = (e) => {
      this.onMessage && this.onMessage(JSON.parse(e.data));
  };
  \<close>
  \<^verbatim>\<open>JSON.parse\<close> is a parameter: \<open>None\<close> where it throws its SyntaxError.
\<close>

definition ws_onmessage ::
  "(string \<Rightarrow> jsval option) \<Rightarrow> string \<Rightarrow> server \<Rightarrow> unit completion option" where
  "ws_onmessage JSON_parse data s =
     (case JSON_parse data of
        None \<Rightarrow> Some (Inl SyntaxError, s)
      | Some msg \<Rightarrow> chan_onMessage msg s)"

text \<open>
  \<^verbatim>\<open>part_000\<close>:
  \<^verbatim>\<open>
  async _on_ws_message(e) {
      let msg = JSON.parse(e.data);
      if (msg.type === 'return') {
          await this._on_return(msg.id, msg.ret)
      } else if (msg.type === 'call') {
          await this._on_call(msg.id, msg.name, msg.args);
      } else if (msg.type === 'error') {
          await this._on_error(msg.id, msg.error);
      } else if (msg.type === 'close') {
          await this._on_normal_close();
      }
  }
  \<close>
\<close>

definition on_ws_message ::
  "(string \<Rightarrow> jsval option) \<Rightarrow> string \<Rightarrow> server \<Rightarrow> unit completion option" where
  "on_ws_message JSON_parse data s =
     (case JSON_parse data of
        None \<Rightarrow> Some (Inl SyntaxError, s)
      | Some msg \<Rightarrow>
          (case get_prop msg ''type'' of
             Inl e \<Rightarrow> Some (Inl e, s)
           | Inr t \<Rightarrow>
               if t = JStr ''return'' then
                 Some (on_return (field msg ''id'') (field msg ''ret'') s)
               else if t = JStr ''call'' then
                 on_call (field msg ''id'') (field msg ''name'') (field msg ''args'') s
               else if t = JStr ''error'' then
                 Some (on_error (field msg ''id'') (field msg ''error'') s)
               else if t = JStr ''close'' then Some (on_normal_close s)
               else Some (Inr (), s)))"

subsection \<open>Opening and closing of the socket\<close>

text \<open>
  \<^verbatim>\<open>part_000\<close>:
  \<^verbatim>\<open>
  async _on_ws_open() {
      this._ws_opened_on = Date.now();
      initFunction && initFunction(this);
  }
  \<close>
  The application's init function is outside the script; the trace records that it
  is called.
\<close>

definition on_ws_open :: "int \<Rightarrow> bool \<Rightarrow> server \<Rightarrow> unit completion" where
  "on_ws_open now initFunction_defined s =
     (let s1 = s\<lparr>ws_opened_on := Some now\<rparr>
      in (Inr (), if initFunction_defined then perform InitFunction s1 else s1))"

text \<open>
  \<^verbatim>\<open>bootstrap.js\<close> calls the init function without the guard:
  \<^verbatim>\<open>
  this.chan.onOpened = async () => {
      initFunction(this);
  };
  \<close>
\<close>

definition chan_onOpened :: "bool \<Rightarrow> server \<Rightarrow> unit completion" where
  "chan_onOpened initFunction_defined s =
     (if initFunction_defined then (Inr (), perform InitFunction s) else (Inl TypeError, s))"

text \<open>\<^verbatim>\<open>chan.onError\<close> (\<^verbatim>\<open>bootstrap.js\<close>) and \<^verbatim>\<open>_on_ws_error\<close> (\<^verbatim>\<open>part_000\<close>):
  \<^verbatim>\<open>console.error(e)\<close>.\<close>

definition chan_onError :: "server \<Rightarrow> unit completion" where
  "chan_onError s = (Inr (), perform ConsoleError s)"

definition on_ws_error :: "server \<Rightarrow> unit completion" where
  "on_ws_error s = (Inr (), perform ConsoleError s)"

text \<open>
  \<^verbatim>\<open>bootstrap.js\<close>:
  \<^verbatim>\<open>
  this.chan.onClose = async () => {
      console.debug('ws conn close');
  };
  \<close>
\<close>

definition chan_onClose :: "server \<Rightarrow> unit completion" where
  "chan_onClose s = (Inr (), console_debug ''ws conn close'' s)"

text \<open>
  \<^verbatim>\<open>part_000\<close>:
  \<^verbatim>\<open>
  async _on_abnormal_close(e) {
      let serverDied = (
          (this._ws_opened_on != null) &&
          (!e.wasClean)
      );
      if (serverDied) {
          window.close();
      }
  }
  \<close>
\<close>

definition on_abnormal_close :: "bool \<Rightarrow> server \<Rightarrow> unit completion" where
  "on_abnormal_close wasClean s =
     (let serverDied = (ws_opened_on s \<noteq> None \<and> \<not> wasClean)
      in (Inr (), if serverDied then perform WindowClose s else s))"

subsection \<open>Runs of the peer\<close>

text \<open>
  What happens to the peer, one event at a time: the application calls \<^verbatim>\<open>expose\<close> or
  \<^verbatim>\<open>execute\<close>, or the socket opens, delivers a frame, reports an error or closes. An
  exception ends the handler that raised it and not the page: the next event finds
  the state that handler left behind. A run is \<open>None\<close> from the first event on that
  this theory does not describe.
\<close>

datatype revision = Bootstrap_js | Part_000

datatype event =
    Expose exposable
  | Execute string "jsval list"
  | Opened int bool
  | Frame string
  | SocketError
  | Closed bool

definition step ::
  "revision \<Rightarrow> (string \<Rightarrow> jsval option) \<Rightarrow> event \<Rightarrow> server \<Rightarrow> server option" where
  "step r JSON_parse ev s =
     (case ev of
        Expose x \<Rightarrow> map_option snd (expose x s)
      | Execute name args \<Rightarrow> Some (snd (execute name args s))
      | Opened now initFunction_defined \<Rightarrow>
          (case r of
             Bootstrap_js \<Rightarrow> Some (snd (chan_onOpened initFunction_defined s))
           | Part_000 \<Rightarrow> Some (snd (on_ws_open now initFunction_defined s)))
      | Frame data \<Rightarrow>
          (case r of
             Bootstrap_js \<Rightarrow> map_option snd (ws_onmessage JSON_parse data s)
           | Part_000 \<Rightarrow> map_option snd (on_ws_message JSON_parse data s))
      | SocketError \<Rightarrow>
          (case r of
             Bootstrap_js \<Rightarrow> Some (snd (chan_onError s))
           | Part_000 \<Rightarrow> Some (snd (on_ws_error s)))
      | Closed wasClean \<Rightarrow>
          (case r of
             Bootstrap_js \<Rightarrow> Some (snd (chan_onClose s))
           | Part_000 \<Rightarrow> Some (snd (on_abnormal_close wasClean s))))"

fun run ::
  "revision \<Rightarrow> (string \<Rightarrow> jsval option) \<Rightarrow> event list \<Rightarrow> server \<Rightarrow> server option" where
  "run r JSON_parse [] s = Some s"
| "run r JSON_parse (ev # evs) s =
     (case step r JSON_parse ev s of
        None \<Rightarrow> None
      | Some s' \<Rightarrow> run r JSON_parse evs s')"

text \<open>A property of traces: every socket write of a \<^verbatim>\<open>call\<close> envelope comes after a
  push of an entry with the id of that envelope. \<open>pushed\<close> holds the ids pushed so
  far.\<close>

fun sends_follow_pushes :: "string list \<Rightarrow> effect list \<Rightarrow> bool" where
  "sends_follow_pushes pushed [] = True"
| "sends_follow_pushes pushed (PendingPush i # tr) = sends_follow_pushes (i # pushed) tr"
| "sends_follow_pushes pushed (WsSend data # tr) =
     ((if field data ''type'' = JStr ''call'' then field data ''id'' \<in> JStr ` set pushed
       else True)
      \<and> sends_follow_pushes pushed tr)"
| "sends_follow_pushes pushed (_ # tr) = sends_follow_pushes pushed tr"

text \<open>The ids in the pending table are pairwise different numerals of counter values
  that have been issued.\<close>

definition ids_from_counter :: "server \<Rightarrow> bool" where
  "ids_from_counter s =
     (distinct (map pending_id (pendingReturns s))
      \<and> list_all (\<lambda>x. pending_id x \<in> toString10 ` {1..idCounter s}) (pendingReturns s))"


section \<open>Basic facts\<close>

lemma fields_perform [simp]:
  "idCounter (perform e s) = idCounter s"
  "pendingReturns (perform e s) = pendingReturns s"
  "fns (perform e s) = fns s"
  "ws_opened_on (perform e s) = ws_opened_on s"
  "promises (perform e s) = promises s"
  by (simp_all add: perform_def)

lemma fields_console_debug [simp]:
  "idCounter (console_debug m s) = idCounter s"
  "pendingReturns (console_debug m s) = pendingReturns s"
  "fns (console_debug m s) = fns s"
  "ws_opened_on (console_debug m s) = ws_opened_on s"
  "promises (console_debug m s) = promises s"
  "effects (console_debug m s) = effects s @ [ConsoleDebug m]"
  by (simp_all add: console_debug_def perform_def)

text \<open>The equations that run a concrete scenario.\<close>

lemmas run_simps =
  execute_def addReturn_def send_call_def send_def perform_def console_debug_def
  new_Server_def add1_def call_envelope_def on_ws_open_def Let_def toString10.simps
  template.simps
  expose_def fns_hasOwnProperty_def hasOwnProperty_def set_property_def array_index_def
  on_return_def on_error_def popReturn_def no_handler_def splice1_def
  on_call_def fns_get_def Object_prototype_def Object_prototype_apply_def not_found_def
  send_return_def
  return_envelope_def already_registered_def anonymous_function_def
  chan_onMessage_def ws_onmessage_def on_ws_message_def get_prop_def field_def
  step_def chan_onOpened_def chan_onClose_def on_abnormal_close_def on_close_def
  on_normal_close_def

text \<open>Different counter values have different numerals.\<close>

lemma toString10_nonempty: "toString10 n \<noteq> []"
  by (subst toString10.simps) simp

lemma digit_inj:
  "a < 10 \<Longrightarrow> b < 10 \<Longrightarrow> ''0123456789'' ! a = ''0123456789'' ! b \<Longrightarrow> a = b"
proof -
  assume a: "a < 10" and b: "b < 10" and eq: "''0123456789'' ! a = ''0123456789'' ! b"
  have d: "distinct ''0123456789''" by simp
  have "a < length ''0123456789''" "b < length ''0123456789''" using a b by simp_all
  with d eq show "a = b" by (simp only: nth_eq_iff_index_eq)
qed

lemma toString10_inj: "toString10 m = toString10 n \<Longrightarrow> m = n"
proof (induction m arbitrary: n rule: toString10.induct)
  case (1 m)
  show ?case
  proof (cases "m < 10")
    case m_small: True
    show ?thesis
    proof (cases "n < 10")
      case True
      from "1.prems" m_small True
      have "''0123456789'' ! m = ''0123456789'' ! n"
        by (subst (asm) toString10.simps, subst (asm) (2) toString10.simps) simp
      with m_small True show ?thesis by (rule digit_inj)
    next
      case False
      from "1.prems" m_small False
      have "toString10 (n div 10) = []"
        by (subst (asm) toString10.simps, subst (asm) (2) toString10.simps) simp
      with toString10_nonempty show ?thesis by blast
    qed
  next
    case m_big: False
    show ?thesis
    proof (cases "n < 10")
      case True
      from "1.prems" m_big True
      have "toString10 (m div 10) = []"
        by (subst (asm) toString10.simps, subst (asm) (2) toString10.simps) simp
      with toString10_nonempty show ?thesis by blast
    next
      case False
      from "1.prems" m_big False
      have eq: "toString10 (m div 10) = toString10 (n div 10)"
        and last: "''0123456789'' ! (m mod 10) = ''0123456789'' ! (n mod 10)"
        by (subst (asm) toString10.simps, subst (asm) (2) toString10.simps, simp)+
      from "1.IH" [OF m_big eq] have dv: "m div 10 = n div 10" .
      have "m mod 10 < 10" "n mod 10 < 10" by simp_all
      from digit_inj [OF this last] have md: "m mod 10 = n mod 10" .
      from dv md show ?thesis by (metis div_mult_mod_eq)
    qed
  qed
qed

text \<open>A string conversion fails with a TypeError only.\<close>

lemma ToString_error:
  "ToString v = Inl e \<Longrightarrow> e = TypeError"
  "element v = Inl e \<Longrightarrow> e = TypeError"
  "join sep xs = Inl e \<Longrightarrow> e = TypeError"
  by (induction v and v and sep xs rule: ToString_element_join.induct)
     (auto split: if_splits sum.splits)

lemma join_strings: "\<exists>t. join sep (map JStr ks) = Inr t"
proof (induction ks rule: induct_list012)
  case 1
  show ?case by simp
next
  case (2 k)
  show ?case by simp
next
  case (3 k k' ks)
  then show ?case by auto
qed

text \<open>A template literal with a piece that throws.\<close>

lemma template_error: "template ps = Inl e \<Longrightarrow> Inl e \<in> set ps"
  by (induction ps rule: template.induct) (auto simp: template.simps split: sum.splits)

lemma template_value: "template ps = Inr t \<Longrightarrow> Inl e \<notin> set ps"
  by (induction ps arbitrary: t rule: template.induct)
     (auto simp: template.simps split: sum.splits)

lemma template_TypeError:
  assumes "Inl e \<in> set ps" and "\<And>e'. Inl e' \<in> set ps \<Longrightarrow> e' = TypeError"
  shows "template ps = Inl TypeError"
proof (cases "template ps")
  case (Inl e')
  from template_error [OF this] assms(2) show ?thesis using Inl by simp
next
  case (Inr t)
  from template_value [OF this] assms(1) show ?thesis by blast
qed

subsection \<open>Lookup in the pending call table\<close>

lemma findIndex_first:
  "distinct (map pending_id xs) \<Longrightarrow> p \<in> set xs \<Longrightarrow>
   \<exists>i. findIndex (\<lambda>x. JStr (pending_id x) = JStr (pending_id p)) xs = Some i
       \<and> i < length xs \<and> xs ! i = p \<and> splice1 i xs = remove1 p xs"
proof (induction xs)
  case Nil
  then show ?case by simp
next
  case (Cons a xs)
  show ?case
  proof (cases "a = p")
    case True
    then show ?thesis by (simp add: splice1_def)
  next
    case False
    with Cons.prems have p: "p \<in> set xs" and d: "distinct (map pending_id xs)"
      and ne: "pending_id a \<noteq> pending_id p" by auto
    from Cons.IH [OF d p] obtain i where
      "findIndex (\<lambda>x. JStr (pending_id x) = JStr (pending_id p)) xs = Some i"
      "i < length xs" "xs ! i = p" "splice1 i xs = remove1 p xs" by blast
    with ne False show ?thesis by (simp add: splice1_def)
  qed
qed

lemma findIndex_None: "(findIndex P xs = None) = (\<forall>x \<in> set xs. \<not> P x)"
  by (induction xs) auto

lemma popReturn_found:
  assumes "distinct (map pending_id (pendingReturns s))" and "p \<in> set (pendingReturns s)"
  shows "popReturn (JStr (pending_id p)) s
         = (Inr (resolve p, reject p), s\<lparr>pendingReturns := remove1 p (pendingReturns s)\<rparr>)"
proof -
  from findIndex_first [OF assms] obtain i where
    "findIndex (\<lambda>x. JStr (pending_id x) = JStr (pending_id p)) (pendingReturns s) = Some i"
    "pendingReturns s ! i = p" "splice1 i (pendingReturns s) = remove1 p (pendingReturns s)"
    by blast
  then show ?thesis by (simp add: popReturn_def)
qed

lemma popReturn_unknown:
  "\<forall>x \<in> set (pendingReturns s). JStr (pending_id x) \<noteq> i \<Longrightarrow> ToString i = Inr t \<Longrightarrow>
   popReturn i s = (Inl (no_handler t), s)"
  by (simp add: popReturn_def findIndex_None [THEN iffD2])

lemma distinct_map_remove1:
  "distinct (map f xs) \<Longrightarrow> distinct (map f (remove1 x xs))"
proof (induction xs)
  case Nil
  show ?case by simp
next
  case (Cons a xs)
  have "f a \<notin> f ` set (remove1 x xs)"
    using Cons.prems set_remove1_subset [of x xs] by auto
  with Cons show ?case by simp
qed

lemma no_entry_after_remove1:
  "distinct (map pending_id xs) \<Longrightarrow> p \<in> set xs \<Longrightarrow>
   \<forall>x \<in> set (remove1 p xs). pending_id x \<noteq> pending_id p"
proof (induction xs)
  case Nil
  then show ?case by simp
next
  case (Cons a xs)
  show ?case
  proof (cases "a = p")
    case True
    with Cons.prems show ?thesis by (auto simp: image_iff)
  next
    case False
    with Cons.prems have "p \<in> set xs" "distinct (map pending_id xs)"
      "pending_id a \<noteq> pending_id p" by auto
    with Cons.IH False show ?thesis by simp
  qed
qed

text \<open>A response whose id is in the table and whose payload has a string conversion.\<close>

lemma on_return_found:
  assumes "distinct (map pending_id (pendingReturns s))" and "p \<in> set (pendingReturns s)"
    and "ToString v = Inr t"
  shows "on_return (JStr (pending_id p)) v s
         = (Inr (),
            s\<lparr>pendingReturns := remove1 p (pendingReturns s),
              effects := effects s
                @ [ConsoleDebug (''received return for #'' @ pending_id p @ '' -> '' @ t),
                   Resolve (resolve p) v]\<rparr>)"
proof -
  let ?s1 = "console_debug (''received return for #'' @ pending_id p @ '' -> '' @ t) s"
  have "popReturn (JStr (pending_id p)) ?s1
        = (Inr (resolve p, reject p), ?s1\<lparr>pendingReturns := remove1 p (pendingReturns ?s1)\<rparr>)"
    using assms by (intro popReturn_found) simp_all
  then show ?thesis
    using assms(3) by (simp add: on_return_def perform_def console_debug_def template.simps)
qed

lemma on_error_found:
  assumes "distinct (map pending_id (pendingReturns s))" and "p \<in> set (pendingReturns s)"
    and "ToString v = Inr t"
  shows "on_error (JStr (pending_id p)) v s
         = (Inr (),
            s\<lparr>pendingReturns := remove1 p (pendingReturns s),
              effects := effects s
                @ [ConsoleDebug (''received return error #'' @ pending_id p @ '': '' @ t),
                   Reject (reject p) v]\<rparr>)"
proof -
  let ?s1 = "console_debug (''received return error #'' @ pending_id p @ '': '' @ t) s"
  have "popReturn (JStr (pending_id p)) ?s1
        = (Inr (resolve p, reject p), ?s1\<lparr>pendingReturns := remove1 p (pendingReturns ?s1)\<rparr>)"
    using assms by (intro popReturn_found) simp_all
  then show ?thesis
    using assms(3) by (simp add: on_error_def perform_def console_debug_def template.simps)
qed

text \<open>A response whose id is not in the table.\<close>

lemma on_return_unknown:
  "\<forall>x \<in> set (pendingReturns s). JStr (pending_id x) \<noteq> i \<Longrightarrow>
   ToString i = Inr ti \<Longrightarrow> ToString v = Inr tv \<Longrightarrow>
   on_return i v s
     = (Inl (no_handler ti), console_debug (''received return for #'' @ ti @ '' -> '' @ tv) s)"
  by (simp add: on_return_def popReturn_unknown template.simps)

lemma on_error_unknown:
  "\<forall>x \<in> set (pendingReturns s). JStr (pending_id x) \<noteq> i \<Longrightarrow>
   ToString i = Inr ti \<Longrightarrow> ToString v = Inr tv \<Longrightarrow>
   on_error i v s
     = (Inl (no_handler ti), console_debug (''received return error #'' @ ti @ '': '' @ tv) s)"
  by (simp add: on_error_def popReturn_unknown template.simps)

text \<open>A response whose id or payload has no string conversion: the debug line throws
  before the table is looked at.\<close>

lemma on_return_no_text:
  assumes "ToString i = Inl e \<or> ToString v = Inl e"
  shows "on_return i v s = (Inl TypeError, s)"
proof -
  have "template [Inr ''received return for #'', ToString i, Inr '' -> '', ToString v]
          = Inl TypeError"
    using assms by (intro template_TypeError [of e]) (auto dest: ToString_error(1) [OF sym])
  then show ?thesis by (simp add: on_return_def)
qed

lemma on_error_no_text:
  assumes "ToString i = Inl e \<or> ToString v = Inl e"
  shows "on_error i v s = (Inl TypeError, s)"
proof -
  have "template [Inr ''received return error #'', ToString i, Inr '': '', ToString v]
          = Inl TypeError"
    using assms by (intro template_TypeError [of e]) (auto dest: ToString_error(1) [OF sym])
  then show ?thesis by (simp add: on_error_def)
qed

section \<open>Invariants of runs\<close>

subsection \<open>Pushes precede socket writes\<close>

lemma follow_snoc_other:
  "sends_follow_pushes P tr \<Longrightarrow> \<forall>d. e \<noteq> WsSend d \<Longrightarrow>
   sends_follow_pushes P (tr @ [e])"
proof (induction tr arbitrary: P)
  case Nil
  then show ?case by (cases e) simp_all
next
  case (Cons a tr)
  then show ?case by (cases a) simp_all
qed

lemma follow_snoc_send:
  "sends_follow_pushes P tr \<Longrightarrow> field d ''type'' \<noteq> JStr ''call'' \<Longrightarrow>
   sends_follow_pushes P (tr @ [WsSend d])"
proof (induction tr arbitrary: P)
  case Nil
  then show ?case by simp
next
  case (Cons a tr)
  then show ?case by (cases a) simp_all
qed

lemma follow_push_then_send:
  "sends_follow_pushes P tr \<Longrightarrow>
   sends_follow_pushes P (tr @ [PendingPush i, ConsoleDebug m, WsSend (call_envelope i n a)])"
proof (induction tr arbitrary: P)
  case Nil
  then show ?case by (simp add: call_envelope_def field_def get_prop_def)
next
  case (Cons a tr)
  then show ?case by (cases a) simp_all
qed

lemma follow_perform:
  "sends_follow_pushes P (effects s) \<Longrightarrow> \<forall>d. e \<noteq> WsSend d \<Longrightarrow>
   sends_follow_pushes P (effects (perform e s))"
  by (simp add: perform_def follow_snoc_other)

lemma follow_console_debug:
  "sends_follow_pushes P (effects s) \<Longrightarrow> sends_follow_pushes P (effects (console_debug m s))"
  by (simp add: console_debug_def follow_perform)

lemma effects_expose_forEach:
  "expose_forEach es s = Some (r, s') \<Longrightarrow> effects s' = effects s"
proof (induction es arbitrary: s)
  case Nil
  then show ?case by simp
next
  case (Cons a es)
  obtain name f where a: "a = (name, f)" by (cases a)
  from Cons.prems Cons.IH show ?case
    unfolding a by (auto split: sum.splits if_splits)
qed

text \<open>What \<^verbatim>\<open>execute\<close> does, when every argument has a string conversion and when one
  has none.\<close>

lemma execute_sent:
  assumes "join '', '' args = Inr t"
  shows "execute name args s
     = (Inr (promises s),
        s\<lparr>idCounter := add1 (idCounter s),
          promises := Suc (promises s),
          pendingReturns := pendingReturns s
            @ [\<lparr>pending_id = toString10 (add1 (idCounter s)), resolve = promises s,
                reject = promises s\<rparr>],
          effects := effects s
            @ [PendingPush (toString10 (add1 (idCounter s))),
               ConsoleDebug (''sending call #'' @ toString10 (add1 (idCounter s)) @ '': ''
                               @ name @ ''('' @ t @ '')''),
               WsSend (call_envelope (toString10 (add1 (idCounter s))) name args)]\<rparr>)"
  using assms
  by (simp add: execute_def Let_def addReturn_def send_call_def send_def perform_def
      console_debug_def template.simps)

lemma execute_not_sent:
  assumes "join '', '' args = Inl e"
  shows "execute name args s
     = (Inl TypeError,
        s\<lparr>idCounter := add1 (idCounter s),
          promises := Suc (promises s),
          pendingReturns := pendingReturns s
            @ [\<lparr>pending_id = toString10 (add1 (idCounter s)), resolve = promises s,
                reject = promises s\<rparr>],
          effects := effects s @ [PendingPush (toString10 (add1 (idCounter s)))]\<rparr>)"
proof -
  from ToString_error(3) [OF assms] assms have "join '', '' args = Inl TypeError" by simp
  then show ?thesis
    by (simp add: execute_def Let_def addReturn_def send_call_def send_def perform_def
        console_debug_def template.simps)
qed

lemma follow_execute:
  assumes "sends_follow_pushes P (effects s)"
  shows "sends_follow_pushes P (effects (snd (execute name args s)))"
proof (cases "join '', '' args")
  case (Inl e)
  from assms show ?thesis by (simp add: execute_not_sent [OF Inl] follow_snoc_other)
next
  case (Inr t)
  from assms show ?thesis by (simp add: execute_sent [OF Inr] follow_push_then_send)
qed

lemma effects_popReturn: "effects (snd (popReturn i s)) = effects s"
  by (simp add: popReturn_def split: option.splits sum.splits)

lemma follow_on_return:
  assumes a: "sends_follow_pushes P (effects s)"
  shows "sends_follow_pushes P (effects (snd (on_return i v s)))"
proof (cases "template [Inr ''received return for #'', ToString i, Inr '' -> '', ToString v]")
  case (Inl e)
  with a show ?thesis by (simp add: on_return_def)
next
  case (Inr line)
  let ?s1 = "console_debug line s"
  obtain r s2 where pr: "popReturn i ?s1 = (r, s2)" by (cases "popReturn i ?s1")
  with effects_popReturn [of i ?s1] have "effects s2 = effects ?s1" by simp
  with a have s2: "sends_follow_pushes P (effects s2)" by (simp add: follow_snoc_other)
  show ?thesis
    using pr s2 Inr by (cases r) (auto simp: on_return_def follow_perform)
qed

lemma follow_on_error:
  assumes a: "sends_follow_pushes P (effects s)"
  shows "sends_follow_pushes P (effects (snd (on_error i v s)))"
proof (cases "template [Inr ''received return error #'', ToString i, Inr '': '', ToString v]")
  case (Inl e)
  with a show ?thesis by (simp add: on_error_def)
next
  case (Inr line)
  let ?s1 = "console_debug line s"
  obtain r s2 where pr: "popReturn i ?s1 = (r, s2)" by (cases "popReturn i ?s1")
  with effects_popReturn [of i ?s1] have "effects s2 = effects ?s1" by simp
  with a have s2: "sends_follow_pushes P (effects s2)" by (simp add: follow_snoc_other)
  show ?thesis
    using pr s2 Inr by (cases r) (auto simp: on_error_def follow_perform)
qed

lemma follow_send:
  "sends_follow_pushes P (effects s) \<Longrightarrow> field d ''type'' \<noteq> JStr ''call'' \<Longrightarrow>
   sends_follow_pushes P (effects (send d s))"
  by (simp add: send_def perform_def follow_snoc_send)

lemma return_envelope_type: "field (return_envelope i ret) ''type'' \<noteq> JStr ''call''"
  by (simp add: return_envelope_def field_def get_prop_def)

lemma follow_send_return:
  assumes "sends_follow_pushes P (effects s)"
  shows "sends_follow_pushes P (effects (snd (send_return i name xs ret s)))"
proof -
  have "sends_follow_pushes P (effects (send (return_envelope i r) (console_debug line s)))"
    for r line
    using assms by (intro follow_send follow_console_debug return_envelope_type)
  with assms show ?thesis
    by (simp add: send_return_def Let_def split: sum.splits)
qed


lemma follow_on_call:
  assumes "sends_follow_pushes P (effects s)" and "on_call i name args s = Some (r, s')"
  shows "sends_follow_pushes P (effects s')"
proof (cases args)
  case (JArr xs)
  show ?thesis
  proof (cases "template [Inr ''received call #'', ToString i, Inr '': '', ToString name,
                          Inr ''('', join '', '' xs, Inr '')'']")
    case (Inl e)
    with assms JArr show ?thesis by (simp add: on_call_def)
  next
    case (Inr line)
    let ?s1 = "console_debug line s"
    have s1: "sends_follow_pushes P (effects ?s1)"
      using assms(1) by (rule follow_console_debug)
    have sr: "sends_follow_pushes P (effects (snd (send_return i name xs ret ?s1)))" for ret
      using s1 by (rule follow_send_return)
    let ?key = "case ToString name of Inr k \<Rightarrow> k | Inl _ \<Rightarrow> []"
    show ?thesis
    proof (cases "fns_get (fns ?s1) ?key")
      case (Own f)
      show ?thesis
      proof (cases "body f xs")
        case (Inl e)
        with assms(2) Own Inr JArr have "s' = ?s1" by (simp add: on_call_def Let_def)
        with s1 show ?thesis by simp
      next
        case (Inr ret)
        with assms(2) Own \<open>template _ = Inr line\<close> JArr
        have "s' = snd (send_return i name xs ret ?s1)"
          by (auto simp: on_call_def Let_def)
        with sr show ?thesis by simp
      qed
    next
      case Inherited
      show ?thesis
      proof (cases "Object_prototype_apply ?key xs")
        case None
        with assms(2) Inherited Inr JArr show ?thesis by (simp add: on_call_def Let_def)
      next
        case (Some c)
        show ?thesis
        proof (cases c)
          case (Inl e)
          with assms(2) Some Inherited \<open>template _ = Inr line\<close> JArr have "s' = ?s1"
            by (simp add: on_call_def Let_def)
          with s1 show ?thesis by simp
        next
          case (Inr ret)
          with assms(2) Some Inherited \<open>template _ = Inr line\<close> JArr
          have "s' = snd (send_return i name xs ret ?s1)"
            by (auto simp: on_call_def Let_def)
          with sr show ?thesis by simp
        qed
      qed
    next
      case Undefined
      with assms(2) Inr JArr have "s' = ?s1"
        by (auto simp: on_call_def Let_def split: sum.splits)
      with s1 show ?thesis by simp
    qed
  qed
qed (use assms in \<open>auto simp: on_call_def\<close>)

lemma follow_on_close:
  assumes "sends_follow_pushes P (effects s)"
  shows "sends_follow_pushes P (effects (snd (on_close s)))"
    and "sends_follow_pushes P (effects (snd (on_normal_close s)))"
proof -
  have "sends_follow_pushes P ((effects s @ [ConsoleDebug m]) @ [WindowClose])" for m
    using assms by (intro follow_snoc_other) simp_all
  then show "sends_follow_pushes P (effects (snd (on_close s)))"
    and "sends_follow_pushes P (effects (snd (on_normal_close s)))"
    by (simp_all add: on_close_def on_normal_close_def perform_def console_debug_def)
qed

lemma follow_chan_onMessage:
  assumes "sends_follow_pushes P (effects s)" and "chan_onMessage msg s = Some (r, s')"
  shows "sends_follow_pushes P (effects s')"
proof (cases "get_prop msg ''type''")
  case (Inl e)
  with assms show ?thesis by (simp add: chan_onMessage_def)
next
  case (Inr t)
  consider "t = JStr ''return''" | "t = JStr ''call''" | "t = JStr ''error''"
    | "t = JStr ''close''"
    | "t \<noteq> JStr ''return''" "t \<noteq> JStr ''call''" "t \<noteq> JStr ''error''" "t \<noteq> JStr ''close''"
    by blast
  then show ?thesis
  proof cases
    case 1
    with assms(2) Inr have "s' = snd (on_return (field msg ''id'') (field msg ''ret'') s)"
      by (auto simp: chan_onMessage_def)
    with follow_on_return [OF assms(1)] show ?thesis by simp
  next
    case 2
    with assms(2) Inr
    have "on_call (field msg ''id'') (field msg ''name'') (field msg ''args'') s = Some (r, s')"
      by (simp add: chan_onMessage_def)
    with assms(1) show ?thesis by (rule follow_on_call)
  next
    case 3
    with assms(2) Inr have "s' = snd (on_error (field msg ''id'') (field msg ''error'') s)"
      by (auto simp: chan_onMessage_def)
    with follow_on_error [OF assms(1)] show ?thesis by simp
  next
    case 4
    with assms(2) Inr have "s' = snd (on_close s)"
      by (auto simp: chan_onMessage_def)
    with follow_on_close(1) [OF assms(1)] show ?thesis by simp
  next
    case 5
    with assms Inr show ?thesis by (simp add: chan_onMessage_def)
  qed
qed

lemma follow_ws_onmessage:
  assumes "sends_follow_pushes P (effects s)" and "ws_onmessage JSON_parse data s = Some (r, s')"
  shows "sends_follow_pushes P (effects s')"
proof (cases "JSON_parse data")
  case None
  with assms show ?thesis by (simp add: ws_onmessage_def)
next
  case (Some msg)
  with assms(2) have "chan_onMessage msg s = Some (r, s')" by (simp add: ws_onmessage_def)
  with assms(1) show ?thesis by (rule follow_chan_onMessage)
qed

text \<open>The two entry points differ in the handler of a \<^verbatim>\<open>close\<close> message only, and the
  two handlers do the same.\<close>

lemma on_ws_message_ws_onmessage:
  "on_ws_message JSON_parse data s = ws_onmessage JSON_parse data s"
  by (simp add: on_ws_message_def ws_onmessage_def chan_onMessage_def on_close_def
      on_normal_close_def split: option.splits sum.splits)

lemma follow_step:
  assumes "sends_follow_pushes P (effects s)" and "step r JSON_parse ev s = Some s'"
  shows "sends_follow_pushes P (effects s')"
proof (cases ev)
  case (Expose x)
  with assms(2) obtain c where "expose x s = Some (c, s')"
    by (auto simp: step_def)
  then have "effects s' = effects s"
    by (auto simp: expose_def Let_def dest: effects_expose_forEach)
  with assms(1) show ?thesis by simp
next
  case (Execute name args)
  with assms(2) have "s' = snd (execute name args s)" by (simp add: step_def)
  with follow_execute [OF assms(1)] show ?thesis by simp
next
  case (Opened now d)
  with assms show ?thesis
    by (cases r) (auto simp: step_def chan_onOpened_def on_ws_open_def perform_def
        follow_snoc_other Let_def split: if_splits)
next
  case (Frame data)
  with assms(2) obtain c where "ws_onmessage JSON_parse data s = Some (c, s')"
    by (cases r) (auto simp: step_def on_ws_message_ws_onmessage)
  with assms(1) show ?thesis by (rule follow_ws_onmessage)
next
  case SocketError
  with assms show ?thesis
    by (cases r) (auto simp: step_def chan_onError_def on_ws_error_def follow_perform)
next
  case (Closed wasClean)
  with assms show ?thesis
    by (cases r) (auto simp: step_def chan_onClose_def on_abnormal_close_def
        follow_perform follow_console_debug follow_snoc_other)
qed

lemma follow_run:
  "sends_follow_pushes P (effects s) \<Longrightarrow> run r JSON_parse evs s = Some s' \<Longrightarrow>
   sends_follow_pushes P (effects s')"
proof (induction evs arbitrary: s)
  case Nil
  then show ?case by simp
next
  case (Cons ev evs)
  from Cons.prems(2) obtain s1 where st: "step r JSON_parse ev s = Some s1"
    and rn: "run r JSON_parse evs s1 = Some s'"
    by (auto split: option.splits)
  from follow_step [OF Cons.prems(1) st] have "sends_follow_pushes P (effects s1)" .
  from Cons.IH [OF this rn] show ?case .
qed

subsection \<open>Ids in flight are unique\<close>

text \<open>Removing one entry keeps the ids pairwise different.\<close>

lemma ids_splice1:
  assumes "distinct (map pending_id xs)"
    and "list_all (\<lambda>x. pending_id x \<in> toString10 ` {1..c}) xs"
  shows "distinct (map pending_id (splice1 i xs))
       \<and> list_all (\<lambda>x. pending_id x \<in> toString10 ` {1..c}) (splice1 i xs)"
proof
  have "map pending_id (splice1 i xs)
        = take i (map pending_id xs) @ drop (Suc i) (map pending_id xs)"
    by (simp add: splice1_def take_map drop_map)
  moreover have "set (take i (map pending_id xs)) \<inter> set (drop (Suc i) (map pending_id xs)) = {}"
    using assms(1) by (intro set_take_disj_set_drop_if_distinct) simp_all
  ultimately show "distinct (map pending_id (splice1 i xs))"
    using assms(1) by simp
  have "set (splice1 i xs) \<subseteq> set xs"
    by (auto simp: splice1_def dest: in_set_takeD in_set_dropD)
  with assms(2) show "list_all (\<lambda>x. pending_id x \<in> toString10 ` {1..c}) (splice1 i xs)"
    unfolding list_all_iff by blast
qed

text \<open>Handling a frame leaves the counter alone and removes at most one entry.\<close>

lemma ids_shrinks:
  assumes "ids_from_counter s" and "idCounter s' = idCounter s"
    and "pendingReturns s' = pendingReturns s
         \<or> (\<exists>k. pendingReturns s' = splice1 k (pendingReturns s))"
  shows "ids_from_counter s'"
proof -
  from assms(3) show ?thesis
  proof
    assume "pendingReturns s' = pendingReturns s"
    with assms(1,2) show ?thesis unfolding ids_from_counter_def by simp
  next
    assume "\<exists>k. pendingReturns s' = splice1 k (pendingReturns s)"
    then obtain k where k: "pendingReturns s' = splice1 k (pendingReturns s)" ..
    from assms(1) have "distinct (map pending_id (pendingReturns s))"
      and "list_all (\<lambda>x. pending_id x \<in> toString10 ` {1..idCounter s}) (pendingReturns s)"
      unfolding ids_from_counter_def by blast+
    from ids_splice1 [OF this, of k] show ?thesis
      unfolding ids_from_counter_def k assms(2) .
  qed
qed

lemma fields_expose_forEach:
  "expose_forEach es s = Some (c, s') \<Longrightarrow>
   idCounter s' = idCounter s \<and> pendingReturns s' = pendingReturns s"
proof (induction es arbitrary: s)
  case Nil
  then show ?case by simp
next
  case (Cons a es)
  obtain name f where a: "a = (name, f)" by (cases a)
  from Cons.prems Cons.IH show ?case
    unfolding a by (auto split: sum.splits if_splits)
qed

lemma popReturn_shrinks:
  "idCounter (snd (popReturn i s)) = idCounter s
   \<and> (pendingReturns (snd (popReturn i s)) = pendingReturns s
      \<or> (\<exists>k. pendingReturns (snd (popReturn i s)) = splice1 k (pendingReturns s)))"
  by (auto simp: popReturn_def split: option.splits sum.splits)

lemma on_return_shrinks:
  "idCounter (snd (on_return i v s)) = idCounter s
   \<and> (pendingReturns (snd (on_return i v s)) = pendingReturns s
      \<or> (\<exists>k. pendingReturns (snd (on_return i v s)) = splice1 k (pendingReturns s)))"
proof (cases "template [Inr ''received return for #'', ToString i, Inr '' -> '', ToString v]")
  case (Inl e)
  then show ?thesis by (simp add: on_return_def)
next
  case (Inr line)
  let ?s1 = "console_debug line s"
  obtain r s2 where pr: "popReturn i ?s1 = (r, s2)" by (cases "popReturn i ?s1")
  with popReturn_shrinks [of i ?s1]
  have "idCounter s2 = idCounter s"
    and "pendingReturns s2 = pendingReturns s \<or> (\<exists>k. pendingReturns s2 = splice1 k (pendingReturns s))"
    by simp_all
  then show ?thesis
    using pr Inr by (cases r) (auto simp: on_return_def)
qed

lemma on_error_shrinks:
  "idCounter (snd (on_error i v s)) = idCounter s
   \<and> (pendingReturns (snd (on_error i v s)) = pendingReturns s
      \<or> (\<exists>k. pendingReturns (snd (on_error i v s)) = splice1 k (pendingReturns s)))"
proof (cases "template [Inr ''received return error #'', ToString i, Inr '': '', ToString v]")
  case (Inl e)
  then show ?thesis by (simp add: on_error_def)
next
  case (Inr line)
  let ?s1 = "console_debug line s"
  obtain r s2 where pr: "popReturn i ?s1 = (r, s2)" by (cases "popReturn i ?s1")
  with popReturn_shrinks [of i ?s1]
  have "idCounter s2 = idCounter s"
    and "pendingReturns s2 = pendingReturns s \<or> (\<exists>k. pendingReturns s2 = splice1 k (pendingReturns s))"
    by simp_all
  then show ?thesis
    using pr Inr by (cases r) (auto simp: on_error_def)
qed

lemma on_call_keeps:
  "on_call i name args s = Some (c, s') \<Longrightarrow>
   idCounter s' = idCounter s \<and> pendingReturns s' = pendingReturns s"
  by (cases args)
     (auto simp: on_call_def Let_def send_return_def send_def
       split: lookup.splits sum.splits option.splits)

lemma ws_onmessage_shrinks:
  assumes "ws_onmessage JSON_parse data s = Some (c, s')"
  shows "idCounter s' = idCounter s
   \<and> (pendingReturns s' = pendingReturns s
      \<or> (\<exists>k. pendingReturns s' = splice1 k (pendingReturns s)))"
proof (cases "JSON_parse data")
  case None
  with assms show ?thesis by (simp add: ws_onmessage_def)
next
  case (Some msg)
  with assms have m: "chan_onMessage msg s = Some (c, s')" by (simp add: ws_onmessage_def)
  show ?thesis
  proof (cases "get_prop msg ''type''")
    case (Inl e)
    with m show ?thesis by (simp add: chan_onMessage_def)
  next
    case (Inr t)
    consider "t = JStr ''return''" | "t = JStr ''call''" | "t = JStr ''error''"
      | "t = JStr ''close''"
      | "t \<noteq> JStr ''return''" "t \<noteq> JStr ''call''" "t \<noteq> JStr ''error''" "t \<noteq> JStr ''close''"
      by blast
    then show ?thesis
    proof cases
      case 1
      with m Inr have "s' = snd (on_return (field msg ''id'') (field msg ''ret'') s)"
        by (auto simp: chan_onMessage_def)
      with on_return_shrinks show ?thesis by simp
    next
      case 2
      with m Inr
      have "on_call (field msg ''id'') (field msg ''name'') (field msg ''args'') s
              = Some (c, s')"
        by (simp add: chan_onMessage_def)
      from on_call_keeps [OF this] show ?thesis by simp
    next
      case 3
      with m Inr have "s' = snd (on_error (field msg ''id'') (field msg ''error'') s)"
        by (auto simp: chan_onMessage_def)
      with on_error_shrinks show ?thesis by simp
    next
      case 4
      with m Inr show ?thesis by (auto simp: chan_onMessage_def on_close_def)
    next
      case 5
      with m Inr show ?thesis by (simp add: chan_onMessage_def)
    qed
  qed
qed

text \<open>\<^verbatim>\<open>execute\<close> issues a numeral that no entry holds, as long as the counter is exact.\<close>

lemma fields_execute:
  "idCounter (snd (execute name args s)) = add1 (idCounter s)"
  "pendingReturns (snd (execute name args s))
     = pendingReturns s @ [\<lparr>pending_id = toString10 (add1 (idCounter s)),
                            resolve = promises s, reject = promises s\<rparr>]"
  by (cases "join '', '' args"; simp add: execute_sent execute_not_sent)+

lemma ids_execute:
  assumes "ids_from_counter s" and "idCounter s < 2 ^ 53"
  shows "ids_from_counter (snd (execute name args s))
       \<and> idCounter (snd (execute name args s)) = Suc (idCounter s)"
proof -
  let ?c = "idCounter s"
  let ?s' = "snd (execute name args s)"
  from assms(1) have d: "distinct (map pending_id (pendingReturns s))"
    and old: "\<forall>x \<in> set (pendingReturns s). pending_id x \<in> toString10 ` {1..?c}"
    unfolding ids_from_counter_def list_all_iff by blast+
  have new: "toString10 (Suc ?c) \<notin> pending_id ` set (pendingReturns s)"
  proof
    assume "toString10 (Suc ?c) \<in> pending_id ` set (pendingReturns s)"
    then obtain x where "x \<in> set (pendingReturns s)" "pending_id x = toString10 (Suc ?c)"
      by auto
    with old obtain n where "n \<in> {1..?c}" "toString10 (Suc ?c) = toString10 n"
      by force
    then show False using toString10_inj [of "Suc ?c" n] by simp
  qed
  have c': "idCounter ?s' = Suc ?c"
    and p': "pendingReturns ?s'
             = pendingReturns s @ [\<lparr>pending_id = toString10 (Suc ?c), resolve = promises s,
                                    reject = promises s\<rparr>]"
    using assms(2) by (simp_all add: fields_execute add1_def)
  have "distinct (map pending_id (pendingReturns ?s'))"
    using d new by (simp add: p')
  moreover have "\<forall>x \<in> set (pendingReturns ?s'). pending_id x \<in> toString10 ` {1..Suc ?c}"
    using old by (auto simp: p')
  ultimately show ?thesis
    unfolding ids_from_counter_def list_all_iff c' by blast
qed

lemma ids_step:
  assumes "ids_from_counter s" and "idCounter s < 2 ^ 53"
    and "step r JSON_parse ev s = Some s'"
  shows "ids_from_counter s' \<and> idCounter s' \<le> Suc (idCounter s)"
proof (cases ev)
  case (Execute name args)
  with assms(3) have "s' = snd (execute name args s)" by (simp add: step_def)
  with ids_execute [OF assms(1,2)] show ?thesis by simp
next
  case (Frame data)
  with assms(3) obtain c where "ws_onmessage JSON_parse data s = Some (c, s')"
    by (cases r) (auto simp: step_def on_ws_message_ws_onmessage)
  from ws_onmessage_shrinks [OF this] ids_shrinks [OF assms(1)] show ?thesis by simp
next
  case (Expose x)
  with assms(3) obtain c where "expose x s = Some (c, s')" by (auto simp: step_def)
  then have "idCounter s' = idCounter s \<and> pendingReturns s' = pendingReturns s"
    by (auto simp: expose_def Let_def dest: fields_expose_forEach)
  with ids_shrinks [OF assms(1)] show ?thesis by simp
next
  case (Opened now d)
  with assms(3) have "idCounter s' = idCounter s \<and> pendingReturns s' = pendingReturns s"
    by (cases r) (auto simp: step_def chan_onOpened_def on_ws_open_def Let_def
        split: if_splits)
  with ids_shrinks [OF assms(1)] show ?thesis by simp
next
  case SocketError
  with assms(3) have "idCounter s' = idCounter s \<and> pendingReturns s' = pendingReturns s"
    by (cases r) (auto simp: step_def chan_onError_def on_ws_error_def)
  with ids_shrinks [OF assms(1)] show ?thesis by simp
next
  case (Closed wasClean)
  with assms(3) have "idCounter s' = idCounter s \<and> pendingReturns s' = pendingReturns s"
    by (cases r) (auto simp: step_def chan_onClose_def on_abnormal_close_def)
  with ids_shrinks [OF assms(1)] show ?thesis by simp
qed

lemma ids_run:
  "ids_from_counter s \<Longrightarrow> idCounter s + length evs \<le> 2 ^ 53 \<Longrightarrow>
   run r JSON_parse evs s = Some s' \<Longrightarrow>
   ids_from_counter s' \<and> idCounter s' \<le> idCounter s + length evs"
proof (induction evs arbitrary: s)
  case Nil
  then show ?case by simp
next
  case (Cons ev evs)
  from Cons.prems(3) obtain s1 where st: "step r JSON_parse ev s = Some s1"
    and rn: "run r JSON_parse evs s1 = Some s'"
    by (auto split: option.splits)
  from Cons.prems have small: "idCounter s < 2 ^ 53" by simp
  from ids_step [OF Cons.prems(1) small st]
  have i1: "ids_from_counter s1" and c1: "idCounter s1 \<le> Suc (idCounter s)" by simp_all
  from c1 Cons.prems(2) have "idCounter s1 + length evs \<le> 2 ^ 53" by simp
  from Cons.IH [OF i1 this rn] c1 show ?case by simp
qed

lemma ids_new_Server: "ids_from_counter new_Server"
  by (simp add: ids_from_counter_def new_Server_def)

text \<open>In every state that the peer reaches within \<open>2\<^sup>5\<^sup>3\<close> events the ids of the
  pending table are pairwise different.\<close>

lemma ids_distinct_in_runs:
  "length evs \<le> 2 ^ 53 \<Longrightarrow> run r JSON_parse evs new_Server = Some s \<Longrightarrow>
   distinct (map pending_id (pendingReturns s))"
  using ids_run [OF ids_new_Server, of evs r JSON_parse s]
  by (simp add: ids_from_counter_def new_Server_def)

section \<open>Correlation of responses with calls\<close>

text \<open>
  Responses are matched by id. Take a pending call table whose ids are pairwise
  different (the invariant of calls in flight) and two of its entries \<open>p1\<close> and \<open>p2\<close>.
  When the \<^verbatim>\<open>return\<close> for the id of \<open>p2\<close> is handled first and the \<^verbatim>\<open>return\<close> for the id
  of \<open>p1\<close> second, and both payloads have a string conversion, both handlers return
  normally, the promise of \<open>p2\<close> is resolved with the value of the first envelope and
  the promise of \<open>p1\<close> with the value of the second, and both entries leave the table.
\<close>

lemma returns_out_of_order:
  assumes d: "distinct (map pending_id (pendingReturns s))"
    and in1: "p1 \<in> set (pendingReturns s)" and in2: "p2 \<in> set (pendingReturns s)"
    and ne: "pending_id p1 \<noteq> pending_id p2"
    and t1: "ToString v1 = Inr t1" and t2: "ToString v2 = Inr t2"
  shows "on_return (JStr (pending_id p1)) v1 (snd (on_return (JStr (pending_id p2)) v2 s))
         = (Inr (),
            s\<lparr>pendingReturns := remove1 p1 (remove1 p2 (pendingReturns s)),
              effects := effects s
                @ [ConsoleDebug (''received return for #'' @ pending_id p2 @ '' -> '' @ t2),
                   Resolve (resolve p2) v2,
                   ConsoleDebug (''received return for #'' @ pending_id p1 @ '' -> '' @ t1),
                   Resolve (resolve p1) v1]\<rparr>)"
proof -
  let ?s2 = "snd (on_return (JStr (pending_id p2)) v2 s)"
  have s2: "?s2 = s\<lparr>pendingReturns := remove1 p2 (pendingReturns s),
              effects := effects s
                @ [ConsoleDebug (''received return for #'' @ pending_id p2 @ '' -> '' @ t2),
                   Resolve (resolve p2) v2]\<rparr>"
    by (simp add: on_return_found [OF d in2 t2])
  have d2: "distinct (map pending_id (pendingReturns ?s2))"
    using d by (simp add: s2 distinct_map_remove1)
  have in1': "p1 \<in> set (pendingReturns ?s2)"
  proof -
    from ne have "p1 \<noteq> p2" by auto
    with in1 show ?thesis by (simp add: s2 in_set_remove1)
  qed
  show ?thesis
    unfolding on_return_found [OF d2 in1' t1] by (simp add: s2)
qed

text \<open>
  Claim C1. The claim says that each promise resolves with the value of the
  response that bears its id, for every pair of calls. By the lemma above the
  script does this for every payload that has a string conversion. It does not for
  a payload that has none, such as the JSON object \<^verbatim>\<open>{"toString": 1}\<close>: the debug line
  at the head of \<^verbatim>\<open>_on_return\<close> throws a TypeError before \<^verbatim>\<open>_popReturn\<close> is reached, the
  entry stays in the table and its promise is never settled.

  Below, the calls \<^verbatim>\<open>f\<close> (id 1) and \<^verbatim>\<open>g\<close> (id 2) are pending. The response for id 2
  arrives first and carries \<^verbatim>\<open>{"toString": 1}\<close>: the handler rejects with the TypeError
  and leaves the server as it was. The response for id 1 arrives second and
  resolves its promise; the entry for id 2 remains.
\<close>

theorem C1_return_without_string_conversion:
  "snd (execute ''g'' [] (snd (execute ''f'' [] new_Server)))
     = \<lparr>idCounter = 2,
        pendingReturns = [\<lparr>pending_id = ''1'', resolve = 0, reject = 0\<rparr>,
                          \<lparr>pending_id = ''2'', resolve = 1, reject = 1\<rparr>],
        fns = [], ws_opened_on = None, promises = 2,
        effects = [PendingPush ''1'', ConsoleDebug ''sending call #1: f()'',
                   WsSend (JObj [(''type'', JStr ''call''), (''id'', JStr ''1''),
                                 (''name'', JStr ''f''), (''args'', JArr [])]),
                   PendingPush ''2'', ConsoleDebug ''sending call #2: g()'',
                   WsSend (JObj [(''type'', JStr ''call''), (''id'', JStr ''2''),
                                 (''name'', JStr ''g''), (''args'', JArr [])])]\<rparr>
   \<and> chan_onMessage
         (JObj [(''type'', JStr ''return''), (''id'', JStr ''2''),
                (''ret'', JObj [(''toString'', JNum ''1'')])])
         (snd (execute ''g'' [] (snd (execute ''f'' [] new_Server))))
     = Some (Inl TypeError, snd (execute ''g'' [] (snd (execute ''f'' [] new_Server))))
   \<and> chan_onMessage
         (JObj [(''type'', JStr ''return''), (''id'', JStr ''1''), (''ret'', JNum ''7'')])
         (snd (execute ''g'' [] (snd (execute ''f'' [] new_Server))))
     = Some (Inr (),
        \<lparr>idCounter = 2,
         pendingReturns = [\<lparr>pending_id = ''2'', resolve = 1, reject = 1\<rparr>],
         fns = [], ws_opened_on = None, promises = 2,
         effects = [PendingPush ''1'', ConsoleDebug ''sending call #1: f()'',
                    WsSend (JObj [(''type'', JStr ''call''), (''id'', JStr ''1''),
                                  (''name'', JStr ''f''), (''args'', JArr [])]),
                    PendingPush ''2'', ConsoleDebug ''sending call #2: g()'',
                    WsSend (JObj [(''type'', JStr ''call''), (''id'', JStr ''2''),
                                  (''name'', JStr ''g''), (''args'', JArr [])]),
                    ConsoleDebug ''received return for #1 -> 7'',
                    Resolve 0 (JNum ''7'')]\<rparr>)"
  by (simp add: run_simps)

section \<open>Outgoing calls\<close>

text \<open>
  Claim C9. \<^verbatim>\<open>execute\<close> pushes the entry for the new call id onto the pending table
  before it hands the \<^verbatim>\<open>call\<close> envelope to the socket. When every argument has a
  string conversion, the trace grows by the push, the debug line and the socket
  write of the envelope with that id, in this order, and \<^verbatim>\<open>execute\<close> returns the
  promise whose resolving functions the entry holds. When an argument has none, the
  debug line throws after the push: the entry is in the table and nothing is sent.
  Consequently, in the trace of every run of the peer (either revision, any
  sequence of events from the constructor on) each socket write of a \<^verbatim>\<open>call\<close>
  envelope comes after the push of an entry with its id, so no reply can find the
  continuation missing because it was not registered yet.
\<close>

theorem C9_push_before_send:
  "(case join '', '' args of
      Inr t \<Rightarrow>
        execute name args s
          = (Inr (promises s),
             s\<lparr>idCounter := add1 (idCounter s),
               promises := Suc (promises s),
               pendingReturns := pendingReturns s
                 @ [\<lparr>pending_id = toString10 (add1 (idCounter s)), resolve = promises s,
                     reject = promises s\<rparr>],
               effects := effects s
                 @ [PendingPush (toString10 (add1 (idCounter s))),
                    ConsoleDebug (''sending call #'' @ toString10 (add1 (idCounter s)) @ '': ''
                                    @ name @ ''('' @ t @ '')''),
                    WsSend (call_envelope (toString10 (add1 (idCounter s))) name args)]\<rparr>)
    | Inl e \<Rightarrow>
        execute name args s
          = (Inl TypeError,
             s\<lparr>idCounter := add1 (idCounter s),
               promises := Suc (promises s),
               pendingReturns := pendingReturns s
                 @ [\<lparr>pending_id = toString10 (add1 (idCounter s)), resolve = promises s,
                     reject = promises s\<rparr>],
               effects := effects s @ [PendingPush (toString10 (add1 (idCounter s)))]\<rparr>))
   \<and> (run r JSON_parse evs new_Server = Some s' \<longrightarrow> sends_follow_pushes [] (effects s'))"
proof
  show "case join '', '' args of
      Inr t \<Rightarrow>
        execute name args s
          = (Inr (promises s),
             s\<lparr>idCounter := add1 (idCounter s),
               promises := Suc (promises s),
               pendingReturns := pendingReturns s
                 @ [\<lparr>pending_id = toString10 (add1 (idCounter s)), resolve = promises s,
                     reject = promises s\<rparr>],
               effects := effects s
                 @ [PendingPush (toString10 (add1 (idCounter s))),
                    ConsoleDebug (''sending call #'' @ toString10 (add1 (idCounter s)) @ '': ''
                                    @ name @ ''('' @ t @ '')''),
                    WsSend (call_envelope (toString10 (add1 (idCounter s))) name args)]\<rparr>)
    | Inl e \<Rightarrow>
        execute name args s
          = (Inl TypeError,
             s\<lparr>idCounter := add1 (idCounter s),
               promises := Suc (promises s),
               pendingReturns := pendingReturns s
                 @ [\<lparr>pending_id = toString10 (add1 (idCounter s)), resolve = promises s,
                     reject = promises s\<rparr>],
               effects := effects s @ [PendingPush (toString10 (add1 (idCounter s)))]\<rparr>)"
    by (simp add: execute_sent execute_not_sent split: sum.splits)
  have "sends_follow_pushes [] (effects new_Server)" by (simp add: new_Server_def)
  then show "run r JSON_parse evs new_Server = Some s' \<longrightarrow> sends_follow_pushes [] (effects s')"
    by (blast intro: follow_run)
qed

text \<open>A call with printable arguments, and a run in which the second call has an
  argument without a string conversion.\<close>

theorem C9_witness:
  "execute ''f'' [JNum ''1'', JStr ''a''] new_Server
     = (Inr 0,
        \<lparr>idCounter = 1,
         pendingReturns = [\<lparr>pending_id = ''1'', resolve = 0, reject = 0\<rparr>],
         fns = [], ws_opened_on = None, promises = 1,
         effects = [PendingPush ''1'', ConsoleDebug ''sending call #1: f(1, a)'',
                    WsSend (JObj [(''type'', JStr ''call''), (''id'', JStr ''1''),
                                  (''name'', JStr ''f''),
                                  (''args'', JArr [JNum ''1'', JStr ''a''])])]\<rparr>)
   \<and> run Part_000 (\<lambda>d. None)
        [Opened 5 True, Execute ''f'' [JNum ''1''], Execute ''g'' [JObj [(''toString'', JNull)]]]
        new_Server
     = Some \<lparr>idCounter = 2,
         pendingReturns = [\<lparr>pending_id = ''1'', resolve = 0, reject = 0\<rparr>,
                           \<lparr>pending_id = ''2'', resolve = 1, reject = 1\<rparr>],
         fns = [], ws_opened_on = Some 5, promises = 2,
         effects = [InitFunction, PendingPush ''1'', ConsoleDebug ''sending call #1: f(1)'',
                    WsSend (JObj [(''type'', JStr ''call''), (''id'', JStr ''1''),
                                  (''name'', JStr ''f''), (''args'', JArr [JNum ''1''])]),
                    PendingPush ''2'']\<rparr>
   \<and> sends_follow_pushes []
        [InitFunction, PendingPush ''1'', ConsoleDebug ''sending call #1: f(1)'',
         WsSend (JObj [(''type'', JStr ''call''), (''id'', JStr ''1''),
                       (''name'', JStr ''f''), (''args'', JArr [JNum ''1''])]),
         PendingPush ''2'']"
proof -
  let ?evs = "[Opened 5 True, Execute ''f'' [JNum ''1''],
               Execute ''g'' [JObj [(''toString'', JNull)]]]"
  let ?S = "\<lparr>idCounter = 2,
         pendingReturns = [\<lparr>pending_id = ''1'', resolve = 0, reject = 0\<rparr>,
                           \<lparr>pending_id = ''2'', resolve = 1, reject = 1\<rparr>],
         fns = [], ws_opened_on = Some 5, promises = 2,
         effects = [InitFunction, PendingPush ''1'', ConsoleDebug ''sending call #1: f(1)'',
                    WsSend (JObj [(''type'', JStr ''call''), (''id'', JStr ''1''),
                                  (''name'', JStr ''f''), (''args'', JArr [JNum ''1''])]),
                    PendingPush ''2'']\<rparr>"
  have r: "run Part_000 (\<lambda>d. None) ?evs new_Server = Some ?S"
    by (simp add: run_simps)
  have j: "join '', '' [JNum ''1'', JStr ''a''] = Inr ''1, a''" by simp
  note inst = C9_push_before_send [where args = "[JNum ''1'', JStr ''a'']" and name = "''f''"
         and s = new_Server and r = Part_000 and JSON_parse = "\<lambda>d. None" and evs = ?evs
         and s' = ?S]
  from inst r have c: "sends_follow_pushes [] (effects ?S)" by blast
  from inst j have a: "execute ''f'' [JNum ''1'', JStr ''a''] new_Server
     = (Inr 0,
        \<lparr>idCounter = 1,
         pendingReturns = [\<lparr>pending_id = ''1'', resolve = 0, reject = 0\<rparr>],
         fns = [], ws_opened_on = None, promises = 1,
         effects = [PendingPush ''1'', ConsoleDebug ''sending call #1: f(1, a)'',
                    WsSend (JObj [(''type'', JStr ''call''), (''id'', JStr ''1''),
                                  (''name'', JStr ''f''),
                                  (''args'', JArr [JNum ''1'', JStr ''a''])])]\<rparr>)"
    by (simp add: new_Server_def add1_def toString10.simps call_envelope_def)
  from c have c': "sends_follow_pushes []
        [InitFunction, PendingPush ''1'', ConsoleDebug ''sending call #1: f(1)'',
         WsSend (JObj [(''type'', JStr ''call''), (''id'', JStr ''1''),
                       (''name'', JStr ''f''), (''args'', JArr [JNum ''1''])]),
         PendingPush ''2'']"
    by (simp only: server.simps)
  from a r c' show ?thesis by blast
qed

section \<open>Responses without a pending call\<close>

text \<open>
  Claim C3 (as amended). For an inbound \<^verbatim>\<open>return\<close> or \<^verbatim>\<open>error\<close> envelope whose id has
  no entry in the pending table, and whose id and payload have a string conversion,
  the message handler of either revision raises: \<^verbatim>\<open>_popReturn\<close> throws the string
  \<^verbatim>\<open>no handler for call #<id>\<close> and nothing catches it. The only thing done before is
  the debug line of \<^verbatim>\<open>_on_return\<close> / \<^verbatim>\<open>_on_error\<close>; the table, the registry and the
  counter are as before and no continuation is invoked. A second response for an
  id that was answered once is such an envelope.
\<close>

theorem C3_unknown_id_raises:
  "(JSON_parse data = Some msg
      \<and> (\<forall>x \<in> set (pendingReturns s). JStr (pending_id x) \<noteq> field msg ''id'')
      \<and> ToString (field msg ''id'') = Inr ti \<longrightarrow>
      (get_prop msg ''type'' = Inr (JStr ''return'')
         \<and> ToString (field msg ''ret'') = Inr tv \<longrightarrow>
         ws_onmessage JSON_parse data s
           = Some (Inl (no_handler ti),
                   console_debug (''received return for #'' @ ti @ '' -> '' @ tv) s)
         \<and> on_ws_message JSON_parse data s = ws_onmessage JSON_parse data s)
      \<and> (get_prop msg ''type'' = Inr (JStr ''error'')
         \<and> ToString (field msg ''error'') = Inr tv \<longrightarrow>
         ws_onmessage JSON_parse data s
           = Some (Inl (no_handler ti),
                   console_debug (''received return error #'' @ ti @ '': '' @ tv) s)
         \<and> on_ws_message JSON_parse data s = ws_onmessage JSON_parse data s))
   \<and> (distinct (map pending_id (pendingReturns s)) \<and> p \<in> set (pendingReturns s)
        \<and> ToString v = Inr t \<and> ToString v' = Inr t' \<longrightarrow>
        fst (on_return (JStr (pending_id p)) v'
               (snd (on_return (JStr (pending_id p)) v s)))
          = Inl (no_handler (pending_id p))
        \<and> fst (on_error (JStr (pending_id p)) v'
               (snd (on_return (JStr (pending_id p)) v s)))
          = Inl (no_handler (pending_id p)))"
proof (intro conjI impI; (elim conjE)?)
  assume parsed: "JSON_parse data = Some msg"
    and unknown: "\<forall>x \<in> set (pendingReturns s). JStr (pending_id x) \<noteq> field msg ''id''"
    and ti: "ToString (field msg ''id'') = Inr ti"
    and ty: "get_prop msg ''type'' = Inr (JStr ''return'')"
    and tv: "ToString (field msg ''ret'') = Inr tv"
  show "ws_onmessage JSON_parse data s
           = Some (Inl (no_handler ti),
                   console_debug (''received return for #'' @ ti @ '' -> '' @ tv) s)"
    using parsed ty
    by (simp add: ws_onmessage_def chan_onMessage_def on_return_unknown [OF unknown ti tv])
  show "on_ws_message JSON_parse data s = ws_onmessage JSON_parse data s"
    by (rule on_ws_message_ws_onmessage)
next
  assume parsed: "JSON_parse data = Some msg"
    and unknown: "\<forall>x \<in> set (pendingReturns s). JStr (pending_id x) \<noteq> field msg ''id''"
    and ti: "ToString (field msg ''id'') = Inr ti"
    and ty: "get_prop msg ''type'' = Inr (JStr ''error'')"
    and tv: "ToString (field msg ''error'') = Inr tv"
  show "ws_onmessage JSON_parse data s
           = Some (Inl (no_handler ti),
                   console_debug (''received return error #'' @ ti @ '': '' @ tv) s)"
    using parsed ty
    by (simp add: ws_onmessage_def chan_onMessage_def on_error_unknown [OF unknown ti tv])
  show "on_ws_message JSON_parse data s = ws_onmessage JSON_parse data s"
    by (rule on_ws_message_ws_onmessage)
next
  assume d: "distinct (map pending_id (pendingReturns s))" and p: "p \<in> set (pendingReturns s)"
    and t: "ToString v = Inr t" and t': "ToString v' = Inr t'"
  let ?s1 = "snd (on_return (JStr (pending_id p)) v s)"
  have "pendingReturns ?s1 = remove1 p (pendingReturns s)"
    by (simp add: on_return_found [OF d p t])
  with no_entry_after_remove1 [OF d p]
  have gone: "\<forall>x \<in> set (pendingReturns ?s1). JStr (pending_id x) \<noteq> JStr (pending_id p)"
    by simp
  have ti: "ToString (JStr (pending_id p)) = Inr (pending_id p)" by simp
  show "fst (on_return (JStr (pending_id p)) v' ?s1) = Inl (no_handler (pending_id p))"
    by (simp add: on_return_unknown [OF gone ti t'])
  show "fst (on_error (JStr (pending_id p)) v' ?s1) = Inl (no_handler (pending_id p))"
    by (simp add: on_error_unknown [OF gone ti t'])
qed

text \<open>The claim as stated (no raise) fails on a fresh server, and for a duplicate.\<close>

theorem C3_counterexample:
  "chan_onMessage (JObj [(''type'', JStr ''return''), (''id'', JStr ''7''), (''ret'', JNum ''1'')])
     new_Server
     = Some (Inl (Thrown (JStr ''no handler for call #7'')),
             new_Server\<lparr>effects := [ConsoleDebug ''received return for #7 -> 1'']\<rparr>)
   \<and> fst (on_return (JStr ''1'') (JNum ''5'')
            (snd (on_return (JStr ''1'') (JNum ''5'') (snd (execute ''f'' [] new_Server)))))
     = Inl (Thrown (JStr ''no handler for call #1''))"
  by (simp add: run_simps)

theorem C3_witness:
  "ws_onmessage
     (\<lambda>d. if d = ''late'' then Some (JObj [(''type'', JStr ''return''), (''id'', JStr ''7''),
                                           (''ret'', JNum ''1'')]) else None)
     ''late'' new_Server
     = Some (Inl (Thrown (JStr ''no handler for call #7'')),
             new_Server\<lparr>effects := [ConsoleDebug ''received return for #7 -> 1'']\<rparr>)
   \<and> ws_onmessage
     (\<lambda>d. if d = ''late'' then Some (JObj [(''type'', JStr ''error''), (''id'', JStr ''7''),
                                           (''error'', JStr ''x'')]) else None)
     ''late'' new_Server
     = Some (Inl (Thrown (JStr ''no handler for call #7'')),
             new_Server\<lparr>effects := [ConsoleDebug ''received return error #7: x'']\<rparr>)
   \<and> fst (on_error (JStr ''1'') (JNum ''5'')
            (snd (on_return (JStr ''1'') (JNum ''5'') (snd (execute ''f'' [] new_Server)))))
     = Inl (Thrown (JStr ''no handler for call #1''))"
proof -
  let ?ret = "JObj [(''type'', JStr ''return''), (''id'', JStr ''7''), (''ret'', JNum ''1'')]"
  let ?err = "JObj [(''type'', JStr ''error''), (''id'', JStr ''7''), (''error'', JStr ''x'')]"
  let ?P = "\<lambda>m d. if d = ''late'' then Some m else None"
  let ?s = "snd (execute ''f'' [] new_Server)"
  let ?p = "\<lparr>pending_id = ''1'', resolve = 0, reject = 0\<rparr>"
  have table: "pendingReturns ?s = [?p]" by (simp add: run_simps)
  have a: "ws_onmessage (?P ?ret) ''late'' new_Server
     = Some (Inl (no_handler ''7''),
             console_debug (''received return for #'' @ ''7'' @ '' -> '' @ ''1'') new_Server)"
    using C3_unknown_id_raises [where JSON_parse = "?P ?ret" and data = "''late''"
        and msg = ?ret and s = new_Server and ti = "''7''" and tv = "''1''"]
    by (simp add: new_Server_def get_prop_def field_def)
  have b: "ws_onmessage (?P ?err) ''late'' new_Server
     = Some (Inl (no_handler ''7''),
             console_debug (''received return error #'' @ ''7'' @ '': '' @ ''x'') new_Server)"
    using C3_unknown_id_raises [where JSON_parse = "?P ?err" and data = "''late''"
        and msg = ?err and s = new_Server and ti = "''7''" and tv = "''x''"]
    by (simp add: new_Server_def get_prop_def field_def)
  have c: "fst (on_error (JStr (pending_id ?p)) (JNum ''5'')
            (snd (on_return (JStr (pending_id ?p)) (JNum ''5'') ?s)))
     = Inl (no_handler (pending_id ?p))"
    using C3_unknown_id_raises [where s = ?s and p = ?p and v = "JNum ''5''"
        and v' = "JNum ''5''" and t = "''5''" and t' = "''5''"] table
    by simp
  show ?thesis
    using a b c
    by (simp add: no_handler_def console_debug_def perform_def new_Server_def)
qed

section \<open>The function registry\<close>

subsection \<open>The registry as a dictionary\<close>

lemma map_of_update_in_place:
  "map_of (map (\<lambda>(k', v'). if k' = k then (k', v) else (k', v')) obj) x =
     (if x = k \<and> k \<in> fst ` set obj then Some v else map_of obj x)"
proof (induction obj)
  case Nil
  show ?case by simp
next
  case (Cons a obj)
  obtain k0 v0 where a: "a = (k0, v0)" by (cases a)
  show ?case
  proof (cases "k0 = k")
    case True
    then show ?thesis using Cons.IH a by simp
  next
    case False
    then show ?thesis using Cons.IH a by (auto simp: rev_image_eqI)
  qed
qed

lemma map_of_insert_index:
  "k \<notin> fst ` set obj \<Longrightarrow> map_of (insert_index n k v obj) x = ((map_of obj)(k \<mapsto> v)) x"
proof (induction obj)
  case Nil
  show ?case by simp
next
  case (Cons a obj)
  obtain k0 v0 where a: "a = (k0, v0)" by (cases a)
  from Cons.prems a have ne: "k0 \<noteq> k" and notin: "k \<notin> fst ` set obj" by auto
  show ?case using Cons.IH [OF notin] a ne
    by (cases "array_index k0") auto
qed

lemma map_of_set_property: "map_of (set_property obj k v) = (map_of obj)(k \<mapsto> v)"
proof (rule ext)
  fix x
  show "map_of (set_property obj k v) x = ((map_of obj)(k \<mapsto> v)) x"
  proof (cases "k \<in> fst ` set obj")
    case True
    then show ?thesis
      by (simp add: set_property_def hasOwnProperty_def map_of_update_in_place)
  next
    case False
    show ?thesis
    proof (cases "array_index k")
      case None
      from False have "map_of obj k = None" by (simp add: map_of_eq_None_iff)
      with False None show ?thesis
        by (simp add: set_property_def hasOwnProperty_def map_add_def split: option.splits)
    next
      case (Some n)
      with False show ?thesis
        by (simp add: set_property_def hasOwnProperty_def map_of_insert_index)
    qed
  qed
qed

lemma hasOwnProperty_map_of: "hasOwnProperty obj k = (map_of obj k \<noteq> None)"
  by (simp add: hasOwnProperty_def map_of_eq_None_iff)

lemma hasOwnProperty_set_property:
  "hasOwnProperty (set_property obj k v) k' = (k' = k \<or> hasOwnProperty obj k')"
  by (simp add: hasOwnProperty_map_of map_of_set_property)

text \<open>While no function is registered under \<^verbatim>\<open>hasOwnProperty\<close>, the duplicate test of
  \<^verbatim>\<open>expose\<close> is the built-in one.\<close>

lemma builtin_test:
  "map_of registry ''hasOwnProperty'' = None \<Longrightarrow>
   fns_hasOwnProperty registry name = Inr (hasOwnProperty registry name)"
  by (simp add: fns_hasOwnProperty_def)

text \<open>A batch of new names, none of them \<^verbatim>\<open>hasOwnProperty\<close> or \<^verbatim>\<open>__proto__\<close>, runs to its
  end and registers each of them.\<close>

lemma expose_forEach_fresh:
  "map_of (fns s) ''hasOwnProperty'' = None \<Longrightarrow> distinct (map fst pre) \<Longrightarrow>
   \<forall>k \<in> fst ` set pre.
      \<not> hasOwnProperty (fns s) k \<and> k \<noteq> ''hasOwnProperty'' \<and> k \<noteq> ''__proto__'' \<Longrightarrow>
   \<exists>obj. expose_forEach (pre @ rest) s = expose_forEach rest (s\<lparr>fns := obj\<rparr>)
         \<and> map_of obj = map_of (fns s) ++ map_of pre"
proof (induction pre arbitrary: s)
  case Nil
  have "expose_forEach ([] @ rest) s = expose_forEach rest (s\<lparr>fns := fns s\<rparr>)" by simp
  then show ?case by (intro exI [of _ "fns s"]) simp
next
  case (Cons a pre)
  obtain k f where a: "a = (k, f)" by (cases a)
  let ?s1 = "s\<lparr>fns := set_property (fns s) k f\<rparr>"
  from Cons.prems a have fresh: "\<not> hasOwnProperty (fns s) k"
    and k_ok: "k \<noteq> ''hasOwnProperty''" "k \<noteq> ''__proto__''"
    and k_new: "k \<notin> fst ` set pre" and d: "distinct (map fst pre)" by auto
  from Cons.prems(1) k_ok have b1: "map_of (fns ?s1) ''hasOwnProperty'' = None"
    by (simp add: map_of_set_property)
  from Cons.prems a k_new
  have "\<forall>k' \<in> fst ` set pre.
          \<not> hasOwnProperty (fns ?s1) k' \<and> k' \<noteq> ''hasOwnProperty'' \<and> k' \<noteq> ''__proto__''"
    by (auto simp: hasOwnProperty_set_property)
  from Cons.IH [OF b1 d this] obtain obj where
    run: "expose_forEach (pre @ rest) ?s1 = expose_forEach rest (?s1\<lparr>fns := obj\<rparr>)"
    and obj: "map_of obj = map_of (fns ?s1) ++ map_of pre" by blast
  from k_new have none: "map_of pre k = None" by (simp add: map_of_eq_None_iff)
  have "map_of obj = map_of (fns s) ++ map_of (a # pre)"
  proof (rule ext)
    fix x
    show "map_of obj x = (map_of (fns s) ++ map_of (a # pre)) x"
      using none by (cases "x = k") (simp_all add: obj a map_of_set_property map_add_def split: option.splits)
  qed
  moreover have "expose_forEach ((a # pre) @ rest) s = expose_forEach rest (s\<lparr>fns := obj\<rparr>)"
    using fresh run k_ok by (simp add: a builtin_test [OF Cons.prems(1)])
  ultimately show ?case by blast
qed

subsection \<open>Registration while the built-in test is in force\<close>

text \<open>
  Duplicate registration. While no function is registered under \<^verbatim>\<open>hasOwnProperty\<close>,
  exposing a registered name \<open>n\<close> again, as a mapping entry with any handler or as a
  function whose name is \<open>n\<close>, throws the string \<^verbatim>\<open>function 'n' is already registered\<close>
  and leaves the server as it was.
\<close>

lemma expose_duplicate_fails:
  assumes "map_of (fns s) ''hasOwnProperty'' = None" and "map_of (fns s) n = Some h0"
  shows "expose (Mapping [(n, h)]) s = Some (Inl (already_registered n), s)"
    and "fname f = n \<Longrightarrow> n \<noteq> ''__proto__'' \<Longrightarrow>
         expose (Fn f) s = Some (Inl (already_registered n), s)"
  using assms by (simp_all add: expose_def builtin_test hasOwnProperty_map_of)

text \<open>
  Partial registration. In the same situation, let a batch consist of new, pairwise
  different names \<open>pre\<close> (none of them \<^verbatim>\<open>hasOwnProperty\<close> or \<^verbatim>\<open>__proto__\<close>), then a name \<open>n\<close>
  that is registered already, then any entries \<open>post\<close>. Exposing it throws for \<open>n\<close>;
  afterwards every name of \<open>pre\<close> is registered with its handler, every other name
  is bound as before the call, and no other field of the server has changed.
\<close>

lemma partial_registration_kept:
  assumes "map_of (fns s) ''hasOwnProperty'' = None"
    and "distinct (map fst pre)"
    and "\<forall>k \<in> fst ` set pre.
           \<not> hasOwnProperty (fns s) k \<and> k \<noteq> ''hasOwnProperty'' \<and> k \<noteq> ''__proto__''"
    and "hasOwnProperty (fns s) n"
  shows "\<exists>obj. expose (Mapping (pre @ (n, h) # post)) s
                 = Some (Inl (already_registered n), s\<lparr>fns := obj\<rparr>)
             \<and> map_of obj = map_of (fns s) ++ map_of pre"
proof -
  from expose_forEach_fresh [OF assms(1,2,3), of "(n, h) # post"] obtain obj where
    run: "expose_forEach (pre @ (n, h) # post) s = expose_forEach ((n, h) # post) (s\<lparr>fns := obj\<rparr>)"
    and obj: "map_of obj = map_of (fns s) ++ map_of pre" by blast
  from assms(4) obj have taken: "hasOwnProperty obj n"
    by (auto simp: hasOwnProperty_map_of map_add_def split: option.splits)
  have "map_of pre ''hasOwnProperty'' = None"
    using assms(3) by (auto simp: map_of_eq_None_iff)
  with obj assms(1) have "map_of obj ''hasOwnProperty'' = None"
    by (simp add: map_add_def)
  with run taken have "expose (Mapping (pre @ (n, h) # post)) s
                 = Some (Inl (already_registered n), s\<lparr>fns := obj\<rparr>)"
    by (simp add: expose_def builtin_test)
  with obj show ?thesis by blast
qed

text \<open>
  A function is exposed under its name. In the same situation, exposing a function
  whose name is free (and is not \<^verbatim>\<open>__proto__\<close>) registers it under that name; exposing
  a second function of the same name then throws, the first one staying registered.
\<close>

lemma function_exposed_under_its_name:
  assumes "map_of (fns s) ''hasOwnProperty'' = None"
    and "\<not> hasOwnProperty (fns s) (fname f)"
    and "fname f \<noteq> ''hasOwnProperty''" and "fname f \<noteq> ''__proto__''"
    and "fname g = fname f"
  shows "expose (Fn f) s = Some (Inr (), s\<lparr>fns := set_property (fns s) (fname f) f\<rparr>)"
    and "map_of (set_property (fns s) (fname f) f) (fname f) = Some f"
    and "expose (Fn g) (s\<lparr>fns := set_property (fns s) (fname f) f\<rparr>)
           = Some (Inl (already_registered (fname f)),
                   s\<lparr>fns := set_property (fns s) (fname f) f\<rparr>)"
  using assms
  by (simp_all add: expose_def builtin_test map_of_set_property hasOwnProperty_set_property)

subsection \<open>The claims about registration\<close>

text \<open>
  Claim C7. The claim says that exposing a registered name again fails and leaves
  the first handler in place, for every state of the registry. By the lemma
  \<open>expose_duplicate_fails\<close> the script does this while no function is registered
  under the name \<^verbatim>\<open>hasOwnProperty\<close>. It does not once one is: the test
  \<^verbatim>\<open>this._fns.hasOwnProperty(name)\<close> then calls that function in place of the built-in.

  Below, the application exposes \<^verbatim>\<open>{hasOwnProperty: () => null, f: h1}\<close> on a fresh
  server and then \<^verbatim>\<open>{f: h2}\<close>. The second call returns normally and \<^verbatim>\<open>h2\<close> has replaced
  \<^verbatim>\<open>h1\<close> under \<^verbatim>\<open>f\<close>.
\<close>

theorem C7_shadowed_test_overrides:
  "expose (Mapping [(''hasOwnProperty'', \<lparr>fname = ''hasOwnProperty'', async = False,
                                         body = (\<lambda>_. Inr JNull)\<rparr>),
                    (''f'', \<lparr>fname = ''h1'', async = False, body = (\<lambda>_. Inr (JStr ''first''))\<rparr>)])
     new_Server
     = Some (Inr (),
         new_Server\<lparr>fns :=
           [(''hasOwnProperty'', \<lparr>fname = ''hasOwnProperty'', async = False,
                                  body = (\<lambda>_. Inr JNull)\<rparr>),
            (''f'', \<lparr>fname = ''h1'', async = False, body = (\<lambda>_. Inr (JStr ''first''))\<rparr>)]\<rparr>)
   \<and> expose (Mapping [(''f'', \<lparr>fname = ''h2'', async = False,
                              body = (\<lambda>_. Inr (JStr ''second''))\<rparr>)])
       (new_Server\<lparr>fns :=
           [(''hasOwnProperty'', \<lparr>fname = ''hasOwnProperty'', async = False,
                                  body = (\<lambda>_. Inr JNull)\<rparr>),
            (''f'', \<lparr>fname = ''h1'', async = False, body = (\<lambda>_. Inr (JStr ''first''))\<rparr>)]\<rparr>)
     = Some (Inr (),
         new_Server\<lparr>fns :=
           [(''hasOwnProperty'', \<lparr>fname = ''hasOwnProperty'', async = False,
                                  body = (\<lambda>_. Inr JNull)\<rparr>),
            (''f'', \<lparr>fname = ''h2'', async = False, body = (\<lambda>_. Inr (JStr ''second''))\<rparr>)]\<rparr>)"
  by (simp add: run_simps)

text \<open>
  Claim C8. The claim says that a batch with a name that collides fails at that
  name, the names before it staying registered and the names after it not being
  registered. By the lemma \<open>partial_registration_kept\<close> the script does this while
  no function is registered under the name \<^verbatim>\<open>hasOwnProperty\<close>. Once one is, the test
  \<^verbatim>\<open>this._fns.hasOwnProperty(name)\<close> calls that function and the collision need not be
  detected.

  Below, the registry holds \<^verbatim>\<open>hasOwnProperty\<close> (a function that returns \<^verbatim>\<open>null\<close>) and \<^verbatim>\<open>f\<close>,
  as \<^verbatim>\<open>expose({hasOwnProperty: () => null, f: h1})\<close> leaves a fresh server. The batch \<^verbatim>\<open>{a, f, z}\<close> collides
  at \<^verbatim>\<open>f\<close>; the call returns normally, \<^verbatim>\<open>f\<close> is overridden and \<^verbatim>\<open>z\<close>, the name after it,
  is registered.
\<close>

theorem C8_shadowed_test_no_failure:
  "expose (Mapping [(''a'', \<lparr>fname = ''a'', async = False, body = (\<lambda>_. Inr (JStr ''a''))\<rparr>),
                    (''f'', \<lparr>fname = ''h2'', async = False, body = (\<lambda>_. Inr (JStr ''second''))\<rparr>),
                    (''z'', \<lparr>fname = ''z'', async = False, body = (\<lambda>_. Inr (JStr ''z''))\<rparr>)])
       (new_Server\<lparr>fns :=
           [(''hasOwnProperty'', \<lparr>fname = ''hasOwnProperty'', async = False,
                                  body = (\<lambda>_. Inr JNull)\<rparr>),
            (''f'', \<lparr>fname = ''h1'', async = False, body = (\<lambda>_. Inr (JStr ''first''))\<rparr>)]\<rparr>)
     = Some (Inr (),
         new_Server\<lparr>fns :=
           [(''hasOwnProperty'', \<lparr>fname = ''hasOwnProperty'', async = False,
                                  body = (\<lambda>_. Inr JNull)\<rparr>),
            (''f'', \<lparr>fname = ''h2'', async = False, body = (\<lambda>_. Inr (JStr ''second''))\<rparr>),
            (''a'', \<lparr>fname = ''a'', async = False, body = (\<lambda>_. Inr (JStr ''a''))\<rparr>),
            (''z'', \<lparr>fname = ''z'', async = False, body = (\<lambda>_. Inr (JStr ''z''))\<rparr>)]\<rparr>)"
  by (simp add: run_simps)

text \<open>
  Claim C10. The claim says that a function given to \<^verbatim>\<open>expose\<close> is registered under
  its \<^verbatim>\<open>name\<close>, an anonymous one under the empty string, and that a second anonymous
  function fails as a duplicate. By the lemma \<open>function_exposed_under_its_name\<close> the
  script does this while no function is registered under the name \<^verbatim>\<open>hasOwnProperty\<close>,
  for every name but \<^verbatim>\<open>__proto__\<close>. Otherwise it does not:
  \<^item> after \<^verbatim>\<open>expose({hasOwnProperty: () => true})\<close> on a fresh server, exposing a function
    named \<^verbatim>\<open>g\<close> throws \<^verbatim>\<open>function 'g' is already registered\<close> and registers nothing,
    since the duplicate test calls the exposed function; the same happens after
    \<^verbatim>\<open>expose({hasOwnProperty: async () => false})\<close>, the promise that the call returns
    counting as true;
  \<^item> when the function under \<^verbatim>\<open>hasOwnProperty\<close> returns \<^verbatim>\<open>null\<close>, a second anonymous function
    replaces the first without an error;
  \<^item> on a fresh server, exposing a function whose name is \<^verbatim>\<open>__proto__\<close> returns normally
    and registers nothing.
\<close>

theorem C10_function_not_registered:
  "expose (Mapping [(''hasOwnProperty'', \<lparr>fname = ''hasOwnProperty'', async = False,
                                         body = (\<lambda>_. Inr (JBool True))\<rparr>)]) new_Server
     = Some (Inr (),
         new_Server\<lparr>fns :=
           [(''hasOwnProperty'', \<lparr>fname = ''hasOwnProperty'', async = False,
                                  body = (\<lambda>_. Inr (JBool True))\<rparr>)]\<rparr>)
   \<and> expose (Fn \<lparr>fname = ''g'', async = False, body = (\<lambda>_. Inr JNull)\<rparr>)
       (new_Server\<lparr>fns :=
           [(''hasOwnProperty'', \<lparr>fname = ''hasOwnProperty'', async = False,
                                  body = (\<lambda>_. Inr (JBool True))\<rparr>)]\<rparr>)
     = Some (Inl (Thrown (JStr (''function '' @ [CHR 0x27] @ ''g'' @ [CHR 0x27]
                                  @ '' is already registered''))),
         new_Server\<lparr>fns :=
           [(''hasOwnProperty'', \<lparr>fname = ''hasOwnProperty'', async = False,
                                  body = (\<lambda>_. Inr (JBool True))\<rparr>)]\<rparr>)
   \<and> expose (Fn \<lparr>fname = ''g'', async = False, body = (\<lambda>_. Inr JNull)\<rparr>)
       (new_Server\<lparr>fns :=
           [(''hasOwnProperty'', \<lparr>fname = ''hasOwnProperty'', async = True,
                                  body = (\<lambda>_. Inr (JBool False))\<rparr>)]\<rparr>)
     = Some (Inl (Thrown (JStr (''function '' @ [CHR 0x27] @ ''g'' @ [CHR 0x27]
                                  @ '' is already registered''))),
         new_Server\<lparr>fns :=
           [(''hasOwnProperty'', \<lparr>fname = ''hasOwnProperty'', async = True,
                                  body = (\<lambda>_. Inr (JBool False))\<rparr>)]\<rparr>)
   \<and> expose (Fn (anonymous_function (\<lambda>_. Inr (JStr ''second''))))
       (new_Server\<lparr>fns :=
           [(''hasOwnProperty'', \<lparr>fname = ''hasOwnProperty'', async = False,
                                  body = (\<lambda>_. Inr JNull)\<rparr>),
            ('''', anonymous_function (\<lambda>_. Inr (JStr ''first'')))]\<rparr>)
     = Some (Inr (),
         new_Server\<lparr>fns :=
           [(''hasOwnProperty'', \<lparr>fname = ''hasOwnProperty'', async = False,
                                  body = (\<lambda>_. Inr JNull)\<rparr>),
            ('''', anonymous_function (\<lambda>_. Inr (JStr ''second'')))]\<rparr>)
   \<and> expose (Fn \<lparr>fname = ''__proto__'', async = False, body = (\<lambda>_. Inr JNull)\<rparr>) new_Server
     = Some (Inr (), new_Server)"
  by (simp add: run_simps)

section \<open>Inbound calls\<close>

lemma on_call_not_found:
  assumes "ToString i = Inr ti" and "ToString name = Inr key" and "join '', '' xs = Inr ta"
    and "fns_get (fns s) key = Undefined"
    and "join '','' (map JStr (map fst (fns s))) = Inr keys"
  shows "on_call i name (JArr xs) s
     = Some (Inl (not_found key keys),
             console_debug (''received call #'' @ ti @ '': '' @ key @ ''('' @ ta @ '')'') s)"
  using assms by (simp add: on_call_def template.simps Let_def)


text \<open>A name that is a member of \<^verbatim>\<open>Object.prototype\<close> is found by the read
  \<^verbatim>\<open>this._fns[name]\<close> although no function was exposed under it: a call of \<^verbatim>\<open>toString\<close>
  on a fresh server is answered with a \<^verbatim>\<open>return\<close> envelope.\<close>

lemma call_of_inherited_member:
  "chan_onMessage (JObj [(''type'', JStr ''call''), (''id'', JStr ''1''),
                         (''name'', JStr ''toString''), (''args'', JArr [])]) new_Server
     = Some (Inr (),
         new_Server\<lparr>effects :=
           [ConsoleDebug ''received call #1: toString()'',
            ConsoleDebug ''sending return for #1: toString() -> [object Object]'',
            WsSend (JObj [(''type'', JStr ''return''), (''id'', JStr ''1''),
                          (''ret'', JStr ''[object Object]'')])]\<rparr>)"
  by (simp add: run_simps)

text \<open>
  Claim C4 (as amended). Take an inbound \<^verbatim>\<open>call\<close> envelope whose \<^verbatim>\<open>args\<close> is an array and
  whose id, name and arguments have a string conversion. When the read
  \<^verbatim>\<open>this._fns[name]\<close> yields \<^verbatim>\<open>undefined\<close> (the name is no own property of the registry
  and no member of \<^verbatim>\<open>Object.prototype\<close>), the message handler of either revision
  raises: \<^verbatim>\<open>_on_call\<close> throws the string \<^verbatim>\<open>function '<name>' is not found, registered
  functions: [<names>]\<close>. Nothing is sent: the state afterwards is the state before
  plus the debug line.
\<close>

theorem C4_unregistered_call_raises:
  assumes "JSON_parse data = Some msg"
    and "get_prop msg ''type'' = Inr (JStr ''call'')"
    and "field msg ''args'' = JArr xs"
    and "ToString (field msg ''id'') = Inr ti"
    and "ToString (field msg ''name'') = Inr key"
    and "join '', '' xs = Inr ta"
    and "fns_get (fns s) key = Undefined"
  shows "\<exists>keys. join '','' (map JStr (map fst (fns s))) = Inr keys
       \<and> ws_onmessage JSON_parse data s
           = Some (Inl (not_found key keys),
                   console_debug (''received call #'' @ ti @ '': '' @ key @ ''('' @ ta @ '')'') s)
       \<and> on_ws_message JSON_parse data s = ws_onmessage JSON_parse data s"
proof -
  from join_strings obtain keys where k: "join '','' (map JStr (map fst (fns s))) = Inr keys"
    by blast
  have "ws_onmessage JSON_parse data s
           = Some (Inl (not_found key keys),
                   console_debug (''received call #'' @ ti @ '': '' @ key @ ''('' @ ta @ '')'') s)"
    using assms(1,2,3)
    by (simp add: ws_onmessage_def chan_onMessage_def
        on_call_not_found [OF assms(4,5,6,7) k])
  with k on_ws_message_ws_onmessage show ?thesis by blast
qed

text \<open>The claim as stated (an \<^verbatim>\<open>error\<close> envelope is sent, nothing is raised) fails for a
  call of a name that was never exposed.\<close>

theorem C4_counterexample:
  "chan_onMessage (JObj [(''type'', JStr ''call''), (''id'', JStr ''1''),
                         (''name'', JStr ''missingFn''), (''args'', JArr [])]) new_Server
     = Some (Inl (Thrown (JStr (''function '' @ [CHR 0x27] @ ''missingFn'' @ [CHR 0x27]
                            @ '' is not found, registered functions: []''))),
             new_Server\<lparr>effects := [ConsoleDebug ''received call #1: missingFn()'']\<rparr>)"
  by (simp add: run_simps)

theorem C4_witness:
  "ws_onmessage
     (\<lambda>d. if d = ''frame'' then Some (JObj [(''type'', JStr ''call''), (''id'', JStr ''1''),
                (''name'', JStr ''missingFn''), (''args'', JArr [JNum ''1'', JNull])])
          else None)
     ''frame''
     (new_Server\<lparr>fns := [(''known'', anonymous_function (\<lambda>_. Inr JNull))]\<rparr>)
     = Some (Inl (Thrown (JStr (''function '' @ [CHR 0x27] @ ''missingFn'' @ [CHR 0x27]
                            @ '' is not found, registered functions: [known]''))),
             new_Server\<lparr>fns := [(''known'', anonymous_function (\<lambda>_. Inr JNull))],
                        effects := [ConsoleDebug ''received call #1: missingFn(1, )'']\<rparr>)
   \<and> on_ws_message
     (\<lambda>d. if d = ''frame'' then Some (JObj [(''type'', JStr ''call''), (''id'', JStr ''1''),
                (''name'', JStr ''missingFn''), (''args'', JArr [JNum ''1'', JNull])])
          else None)
     ''frame''
     (new_Server\<lparr>fns := [(''known'', anonymous_function (\<lambda>_. Inr JNull))]\<rparr>)
     = Some (Inl (Thrown (JStr (''function '' @ [CHR 0x27] @ ''missingFn'' @ [CHR 0x27]
                            @ '' is not found, registered functions: [known]''))),
             new_Server\<lparr>fns := [(''known'', anonymous_function (\<lambda>_. Inr JNull))],
                        effects := [ConsoleDebug ''received call #1: missingFn(1, )'']\<rparr>)"
proof -
  let ?msg = "JObj [(''type'', JStr ''call''), (''id'', JStr ''1''),
                (''name'', JStr ''missingFn''), (''args'', JArr [JNum ''1'', JNull])]"
  let ?P = "\<lambda>d. if d = ''frame'' then Some ?msg else None"
  let ?s = "new_Server\<lparr>fns := [(''known'', anonymous_function (\<lambda>_. Inr JNull))]\<rparr>"
  have parsed: "?P ''frame'' = Some ?msg" by simp
  have ty: "get_prop ?msg ''type'' = Inr (JStr ''call'')" by (simp add: get_prop_def)
  have args: "field ?msg ''args'' = JArr [JNum ''1'', JNull]"
    by (simp add: field_def get_prop_def)
  have ti: "ToString (field ?msg ''id'') = Inr ''1''" by (simp add: field_def get_prop_def)
  have key: "ToString (field ?msg ''name'') = Inr ''missingFn''"
    by (simp add: field_def get_prop_def)
  have ta: "join '', '' [JNum ''1'', JNull] = Inr ''1, ''" by simp
  have unreg: "fns_get (fns ?s) ''missingFn'' = Undefined"
    by (simp add: fns_get_def Object_prototype_def)
  from C4_unregistered_call_raises [where JSON_parse = ?P and data = "''frame''",
         OF parsed ty args ti key ta unreg]
  obtain keys where k: "join '','' (map JStr (map fst (fns ?s))) = Inr keys"
    and w: "ws_onmessage ?P ''frame'' ?s
           = Some (Inl (not_found ''missingFn'' keys),
                   console_debug (''received call #'' @ ''1'' @ '': '' @ ''missingFn'' @ ''(''
                      @ ''1, '' @ '')'') ?s)"
    and o: "on_ws_message ?P ''frame'' ?s = ws_onmessage ?P ''frame'' ?s"
    by blast
  from k have "keys = ''known''" by simp
  with w o show ?thesis
    by (simp add: not_found_def console_debug_def perform_def new_Server_def)
qed




section \<open>Malformed frames\<close>

text \<open>
  Claim C6 (as amended). A frame whose payload is not valid JSON makes the message
  handler of either revision raise the SyntaxError of \<^verbatim>\<open>JSON.parse\<close>, with the state
  untouched and nothing logged. A frame that parses to a value with a readable
  \<^verbatim>\<open>type\<close> property (anything but \<^verbatim>\<open>null\<close>) that is none of \<^verbatim>\<open>call\<close>, \<^verbatim>\<open>return\<close>,
  \<^verbatim>\<open>error\<close>, \<^verbatim>\<open>close\<close> is dropped in silence: the handler returns normally, the state
  is untouched and nothing is logged.
\<close>

theorem C6_malformed_frames:
  "(JSON_parse data = None \<longrightarrow>
      ws_onmessage JSON_parse data s = Some (Inl SyntaxError, s)
      \<and> on_ws_message JSON_parse data s = Some (Inl SyntaxError, s))
   \<and> (JSON_parse data = Some msg \<and> get_prop msg ''type'' = Inr t
        \<and> t \<noteq> JStr ''call'' \<and> t \<noteq> JStr ''return'' \<and> t \<noteq> JStr ''error''
        \<and> t \<noteq> JStr ''close'' \<longrightarrow>
      ws_onmessage JSON_parse data s = Some (Inr (), s)
      \<and> on_ws_message JSON_parse data s = Some (Inr (), s))"
  by (simp add: ws_onmessage_def on_ws_message_def chan_onMessage_def)

text \<open>The claim as stated (no raise) fails for the frame \<^verbatim>\<open>{\<close>.\<close>

theorem C6_counterexample:
  "ws_onmessage (\<lambda>_. None) ''{'' new_Server = Some (Inl SyntaxError, new_Server)
   \<and> on_ws_message (\<lambda>_. None) ''{'' new_Server = Some (Inl SyntaxError, new_Server)"
  by (simp add: ws_onmessage_def on_ws_message_def)

theorem C6_witness:
  "ws_onmessage
     (\<lambda>d. if d = ''ping'' then Some (JObj [(''type'', JStr ''ping'')]) else None)
     ''{'' new_Server = Some (Inl SyntaxError, new_Server)
   \<and> on_ws_message
     (\<lambda>d. if d = ''ping'' then Some (JObj [(''type'', JStr ''ping'')]) else None)
     ''{'' new_Server = Some (Inl SyntaxError, new_Server)
   \<and> ws_onmessage
     (\<lambda>d. if d = ''ping'' then Some (JObj [(''type'', JStr ''ping'')]) else None)
     ''ping'' new_Server = Some (Inr (), new_Server)
   \<and> on_ws_message
     (\<lambda>d. if d = ''ping'' then Some (JObj [(''type'', JStr ''ping'')]) else None)
     ''ping'' new_Server = Some (Inr (), new_Server)"
proof -
  let ?P = "\<lambda>d. if d = ''ping'' then Some (JObj [(''type'', JStr ''ping'')]) else None"
  have bad: "?P ''{'' = None" by simp
  have good: "?P ''ping'' = Some (JObj [(''type'', JStr ''ping'')])
      \<and> get_prop (JObj [(''type'', JStr ''ping'')]) ''type'' = Inr (JStr ''ping'')
      \<and> JStr ''ping'' \<noteq> JStr ''call'' \<and> JStr ''ping'' \<noteq> JStr ''return''
      \<and> JStr ''ping'' \<noteq> JStr ''error'' \<and> JStr ''ping'' \<noteq> JStr ''close''"
    by (simp add: get_prop_def)
  from C6_malformed_frames [of ?P "''{''" new_Server JNull JNull] bad
  have a: "ws_onmessage ?P ''{'' new_Server = Some (Inl SyntaxError, new_Server)
      \<and> on_ws_message ?P ''{'' new_Server = Some (Inl SyntaxError, new_Server)"
    by blast
  from C6_malformed_frames
         [of ?P "''ping''" new_Server "JObj [(''type'', JStr ''ping'')]" "JStr ''ping''"] good
  have b: "ws_onmessage ?P ''ping'' new_Server = Some (Inr (), new_Server)
      \<and> on_ws_message ?P ''ping'' new_Server = Some (Inr (), new_Server)"
    by blast
  from a b show ?thesis by blast
qed


section \<open>Closing of the socket\<close>

text \<open>
  Claim C2 (as amended). The close handlers do not touch the pending table and
  settle no promise. In \<^verbatim>\<open>bootstrap.js\<close> the handler writes one debug line; in
  \<^verbatim>\<open>part_000\<close> it closes the window when the socket had been opened and the close
  was not clean, and does nothing otherwise.
\<close>

theorem C2_close_leaves_pending_calls:
  "pendingReturns (snd (chan_onClose s)) = pendingReturns s
   \<and> filter is_settlement (effects (snd (chan_onClose s))) = filter is_settlement (effects s)
   \<and> effects (snd (chan_onClose s)) = effects s @ [ConsoleDebug ''ws conn close'']
   \<and> pendingReturns (snd (on_abnormal_close wasClean s)) = pendingReturns s
   \<and> filter is_settlement (effects (snd (on_abnormal_close wasClean s)))
       = filter is_settlement (effects s)
   \<and> effects (snd (on_abnormal_close wasClean s))
       = effects s @ (if ws_opened_on s \<noteq> None \<and> \<not> wasClean then [WindowClose] else [])"
  by (simp add: chan_onClose_def on_abnormal_close_def perform_def)

text \<open>A call that is pending when the socket closes stays pending in both revisions.\<close>

theorem C2_counterexample:
  "pendingReturns (snd (on_abnormal_close False
       (snd (execute ''f'' [] (snd (on_ws_open 0 True new_Server))))))
     = [\<lparr>pending_id = ''1'', resolve = 0, reject = 0\<rparr>]
   \<and> effects (snd (on_abnormal_close False
       (snd (execute ''f'' [] (snd (on_ws_open 0 True new_Server))))))
     = [InitFunction, PendingPush ''1'', ConsoleDebug ''sending call #1: f()'',
        WsSend (JObj [(''type'', JStr ''call''), (''id'', JStr ''1''), (''name'', JStr ''f''),
                      (''args'', JArr [])]),
        WindowClose]
   \<and> pendingReturns (snd (chan_onClose
       (snd (execute ''f'' [] (snd (on_ws_open 0 True new_Server))))))
     = [\<lparr>pending_id = ''1'', resolve = 0, reject = 0\<rparr>]
   \<and> effects (snd (chan_onClose
       (snd (execute ''f'' [] (snd (on_ws_open 0 True new_Server))))))
     = [InitFunction, PendingPush ''1'', ConsoleDebug ''sending call #1: f()'',
        WsSend (JObj [(''type'', JStr ''call''), (''id'', JStr ''1''), (''name'', JStr ''f''),
                      (''args'', JArr [])]),
        ConsoleDebug ''ws conn close'']"
  by (simp add: run_simps on_abnormal_close_def chan_onClose_def)

end
